theory Spec2Isabelle
  imports Complex_Main "HOL-Library.Word" "HOL-Library.Log_Nat"
begin

section \<open>Shared data: errors, outcomes, launch specification\<close>

type_synonym bytes = string

text \<open>
  Go error values. \<open>ErrNew\<close> is \<^verbatim>\<open>errors.New\<close> (or \<^verbatim>\<open>fmt.Errorf\<close> with no error
  argument) with its message, \<open>Errorf\<close> is \<^verbatim>\<open>fmt.Errorf\<close> with the format string and
  the error it embeds (\<^verbatim>\<open>%v\<close> or \<^verbatim>\<open>%w\<close>), \<open>RetryableError\<close> and \<open>WorkloadError\<close> are
  the launcher's two error structs (\<^verbatim>\<open>&RetryableError{err}\<close>, \<^verbatim>\<open>&WorkloadError{code}\<close>).
  Errors produced by collaborators (container runtime, agent, libraries) are arbitrary
  values of this type.
\<close>

datatype error =
    ErrNew string
  | Errorf string error
  | RetryableError error
  | WorkloadError "32 word"

text \<open>
  How a Go call ends: it returns, it panics (a nil pointer dereference), or it never
  returns (a receive on a channel nothing is ever sent on).
\<close>

datatype 'a outcome = Returned 'a | Panicked | Blocked

record EnvVar =
  Name :: string
  Value :: string

record LaunchSpec =
  ImageRef :: string
  Cmd :: "string list"
  Envs :: "EnvVar list"
  RestartPolicy :: string
  ImpersonateServiceAccounts :: "string list"
  AttestationServiceAddr :: string
  ProjectID :: string
  Region :: string
  LogRedirect :: bool

section \<open>The container runner (launcher/container\_runner.go)\<close>

subsection \<open>Collaborators\<close>

text \<open>The event types of package cel that the runner measures.\<close>

datatype CosType =
    ImageRefType | ImageDigestType | RestartPolicyType | ImageIDType | ArgType
  | EnvVarType | OverrideEnvType | OverrideArgType | LaunchSeparatorType

record CosTlv =
  EventType :: CosType
  EventContent :: bytes

text \<open>An image-config descriptor (\<^verbatim>\<open>ocispec.Descriptor\<close>), as far as the runner reads it.\<close>

record Descriptor =
  MediaType :: string
  Digest :: string

text \<open>
  \<^verbatim>\<open>containerd.Image\<close>: its name, the digest of its target, the result of
  \<^verbatim>\<open>image.Config(ctx)\<close>, and what reading and decoding the config blob gives
  (\<^verbatim>\<open>content.ReadBlob\<close>, then \<^verbatim>\<open>json.Unmarshal\<close> into \<^verbatim>\<open>v1.Image\<close>, whose
  \<^verbatim>\<open>Config.Labels\<close> is the label map).
\<close>

record Image =
  Image_Name :: string
  Target_Digest :: string
  Config :: "error + Descriptor"
  ReadBlob :: "error + bytes"
  Unmarshal_Labels :: "bytes \<Rightarrow> error + (string \<rightharpoonup> string)"

text \<open>The process part of the OCI runtime spec.\<close>

record Process =
  Args :: "string list"
  Env :: "string list"

text \<open>
  \<^verbatim>\<open>containerd.ExitStatus\<close>: \<^verbatim>\<open>status.Result()\<close> gives the exit code and an error.
\<close>

record ExitStatus =
  code :: "32 word"
  exit_err :: "error option"

text \<open>
  A task: \<^verbatim>\<open>task.Wait(ctx)\<close> returns a channel and an error, \<^verbatim>\<open>task.Start(ctx)\<close> an
  error. The channel is modelled by what a receive on it yields: \<open>Some status\<close>, or
  \<open>None\<close> when nothing is ever delivered (a nil channel, or a task that never exits).
\<close>

record Task =
  Wait :: "ExitStatus option \<times> error option"
  Start :: "error option"

text \<open>\<^verbatim>\<open>containerd.Container\<close>: the results of the three calls the runner makes on it.\<close>

record Container =
  Container_Image :: "error + Image"
  Container_Spec :: "error + Process"
  NewTask :: "error + Task"

text \<open>
  \<^verbatim>\<open>agent.AttestationAgent\<close>: \<^verbatim>\<open>MeasureEvent\<close> may fail depending on the events measured
  so far and the event; \<^verbatim>\<open>Attest\<close> returns token bytes or an error.
\<close>

record AttestationAgent =
  MeasureEvent :: "CosTlv list \<Rightarrow> CosTlv \<Rightarrow> error option"
  Attest :: "error + bytes"

record ContainerRunner =
  container :: Container
  launchSpec :: LaunchSpec
  attestAgent :: AttestationAgent

text \<open>
  \<^verbatim>\<open>jwt.RegisteredClaims\<close>: \<^verbatim>\<open>ExpiresAt\<close> is a pointer (\<^verbatim>\<open>*NumericDate\<close>), nil when the
  token carries no \<^verbatim>\<open>exp\<close>. Instants are nanoseconds since the epoch.
\<close>

record RegisteredClaims =
  ExpiresAt :: "int option"

text \<open>
  The host and the libraries the runner calls: \<^verbatim>\<open>cel.FormatEnvVar\<close>, the two
  \<^verbatim>\<open>ParseUnverified\<close> calls of the JWT parser (into \<^verbatim>\<open>RegisteredClaims\<close> and into
  \<^verbatim>\<open>MapClaims\<close>), \<^verbatim>\<open>json.MarshalIndent\<close>, \<^verbatim>\<open>os.MkdirAll\<close>, \<^verbatim>\<open>os.WriteFile\<close> (its error
  and, when it fails, what it left in the file), the clock at \<^verbatim>\<open>time.Now()\<close> and at the
  later \<^verbatim>\<open>time.Until\<close>, and \<^verbatim>\<open>rand.Float64()\<close>.
\<close>

record Host =
  FormatEnvVar :: "string \<Rightarrow> string \<Rightarrow> error + string"
  ParseRegistered :: "bytes \<Rightarrow> error + RegisteredClaims"
  ParseMap :: "bytes \<Rightarrow> error + (string \<rightharpoonup> string)"
  MarshalIndent :: "(string \<rightharpoonup> string) \<Rightarrow> error + string"
  MkdirAll :: "error option"
  WriteFile :: "error option"
  WriteFile_partial :: "bytes option"
  time_Now :: int
  time_Now_later :: int
  rand_Float64 :: rat

subsection \<open>Effects\<close>

text \<open>\<^verbatim>\<open>specs.Mount\<close> of the OCI runtime spec.\<close>

record Mount =
  Destination :: string
  Type :: string
  Source :: string
  Options :: "string list"

text \<open>
  The calls with an effect outside the runner, in the order they are made, and the
  lines written to the logger: \<open>Log\<close> carries the text or format of a line,
  \<open>LogErr\<close> the format and the error printed with it. \<open>CallPull\<close> tells whether
  the pull uses the token's resolver; \<open>CallNewContainer\<close> carries the command
  override, the environment, the mounts and the host name that go into the new spec.
\<close>

datatype action =
    CallMeasureEvent CosTlv
  | CallAttest
  | CallMkdirAll string nat
  | CallWriteFile string bytes nat
  | SpawnRefresher int
  | CallNewTask bool
  | CallTaskWait
  | CallTaskStart
  | CallTaskDelete
  | CallCancel
  | CallPull bool
  | CallLoadContainer
  | CallContainerDelete
  | CallNewContainer "string list" "string list" "Mount list" string
  | Log string
  | LogErr string error

text \<open>
  The state a run changes: the events measured so far, the files of the token
  directory, and the trace of actions.
\<close>

record state =
  events :: "CosTlv list"
  files :: "string \<rightharpoonup> bytes"
  trace :: "action list"

definition act :: "action list \<Rightarrow> state \<Rightarrow> state" where
  "act as s = s\<lparr>trace := trace s @ as\<rparr>"

definition hostTokenPath :: string where
  "hostTokenPath = ''/tmp/container_launcher/''"

definition containerTokenMountPath :: string where
  "containerTokenMountPath = ''/run/container_launcher/''"

definition attestationVerifierTokenFile :: string where
  "attestationVerifierTokenFile = ''attestation_verifier_claims_token''"

text \<open>\<^verbatim>\<open>path.Join(hostTokenPath, attestationVerifierTokenFile)\<close>, cleaned.\<close>

definition tokenFilePath :: string where
  "tokenFilePath = ''/tmp/container_launcher/attestation_verifier_claims_token''"

text \<open>The permission arguments \<^verbatim>\<open>0644\<close> and \<^verbatim>\<open>0744\<close> (octal).\<close>

definition perm_0644 :: nat where
  "perm_0644 = 6 * 64 + 4 * 8 + 4"

definition perm_0744 :: nat where
  "perm_0744 = 7 * 64 + 4 * 8 + 4"

subsection \<open>float64 arithmetic\<close>

text \<open>
  A finite float64 is modelled by the rational it denotes. Every float64 operation is
  the exact operation followed by rounding to the nearest float64, ties to even
  (IEEE 754 binary64: 53 significant bits, least exponent \<open>-1022\<close>, subnormals
  below). Each operation is rounded on its own (no fused multiply-add). Overflow to
  infinity is not modelled: the values below stay under \<open>2 ^ 64\<close>.
\<close>

definition round_half_even :: "rat \<Rightarrow> int" where
  "round_half_even y =
     (let f = \<lfloor>y\<rfloor>; d = y - of_int f
      in if d < 1 / 2 then f else if 1 / 2 < d then f + 1
         else if even f then f else f + 1)"

text \<open>For \<open>0 < x\<close>, the exponent \<open>e\<close> with \<open>2 ^ e \<le> x < 2 ^ (e + 1)\<close>.\<close>

definition ilog2 :: "rat \<Rightarrow> int" where
  "ilog2 x =
     (let (p, q) = quotient_of x; d = bitlen p - bitlen q
      in if power_int 2 d \<le> x then d else d - 1)"

definition float64_round :: "rat \<Rightarrow> rat" where
  "float64_round x =
     (if x = 0 then 0
      else let e = max (ilog2 \<bar>x\<bar>) (- 1022); q = power_int 2 (e - 52)
           in of_int (round_half_even (x / q)) * q)"

text \<open>Conversion of a float64 to an integer type truncates toward zero.\<close>

definition float64_to_int64 :: "rat \<Rightarrow> int" where
  "float64_to_int64 x = (if 0 \<le> x then \<lfloor>x\<rfloor> else \<lceil>x\<rceil>)"

subsection \<open>Token refresh\<close>

definition defaultRefreshMultiplier :: rat where
  "defaultRefreshMultiplier = 8 / 10"

definition defaultRefreshJitter :: rat where
  "defaultRefreshJitter = 1 / 10"

text \<open>
  \<^verbatim>\<open>getNextRefreshFromExpiration(expiration time.Duration, random float64)\<close>. The two
  untyped constants become float64 constants; \<^verbatim>\<open>random*2*diff\<close> is
  \<^verbatim>\<open>(random*2)*diff\<close>; \<^verbatim>\<open>time.Duration(...)\<close> truncates.
\<close>

definition getNextRefreshFromExpiration :: "int \<Rightarrow> rat \<Rightarrow> int" where
  "getNextRefreshFromExpiration expiration random =
     (let x = float64_round (of_int expiration);
          diff = float64_round (float64_round defaultRefreshJitter * x);
          center = float64_round (float64_round defaultRefreshMultiplier * x);
          minRange = float64_round (center - diff)
      in float64_to_int64 (float64_round
           (minRange + float64_round (float64_round (random * 2) * diff))))"

text \<open>
  \<^verbatim>\<open>time.Until(t)\<close> is \<^verbatim>\<open>t.Sub(time.Now())\<close>; \<^verbatim>\<open>Sub\<close> saturates at the least and the
  greatest \<^verbatim>\<open>Duration\<close> (an int64 of nanoseconds).
\<close>

definition time_Until :: "Host \<Rightarrow> int \<Rightarrow> int" where
  "time_Until h t = max (- (2 ^ 63)) (min (2 ^ 63 - 1) (t - time_Now_later h))"

text \<open>
  \<^verbatim>\<open>refreshToken\<close>: \<open>Inl err\<close> is the return \<^verbatim>\<open>(0, err)\<close>, \<open>Inr d\<close> the return
  \<^verbatim>\<open>(d, nil)\<close>. \<^verbatim>\<open>claims.ExpiresAt.Time\<close> dereferences \<^verbatim>\<open>ExpiresAt\<close>: a panic when it
  is nil.
\<close>

definition refreshToken :: "Host \<Rightarrow> ContainerRunner \<Rightarrow> state \<Rightarrow> (error + int) outcome \<times> state" where
  "refreshToken h r s0 =
     (let s1 = act [Log ''refreshing attestation verifier OIDC token'', CallAttest] s0 in
      case Attest (attestAgent r) of
        Inl err \<Rightarrow>
          (Returned (Inl (Errorf ''failed to retrieve attestation service token: %v'' err)), s1)
      | Inr token \<Rightarrow>
         (case ParseRegistered h token of
            Inl err \<Rightarrow> (Returned (Inl (Errorf ''failed to parse token: %w'' err)), s1)
          | Inr claims \<Rightarrow>
             (case ExpiresAt claims of
                None \<Rightarrow> (Panicked, s1)
              | Some expiresAt \<Rightarrow>
                 if \<not> time_Now h < expiresAt
                 then (Returned (Inl (ErrNew ''token is expired'')), s1)
                 else
                   (let s2 = act [CallWriteFile tokenFilePath token perm_0644] s1 in
                    case WriteFile h of
                      Some err \<Rightarrow>
                        (Returned (Inl (Errorf
                           ''failed to write token to container mount source point: %v'' err)),
                         s2\<lparr>files := (files s2)(tokenFilePath := WriteFile_partial h)\<rparr>)
                    | None \<Rightarrow>
                       (let s3 = s2\<lparr>files := (files s2)(tokenFilePath \<mapsto> token)\<rparr> in
                        case ParseMap h token of
                          Inl err \<Rightarrow>
                            (Returned (Inl (Errorf ''failed to parse token: %w'' err)), s3)
                        | Inr mapClaims \<Rightarrow>
                           (case MarshalIndent h mapClaims of
                              Inl err \<Rightarrow>
                                (Returned (Inl (Errorf ''failed to format claims: %w'' err)), s3)
                            | Inr claimsString \<Rightarrow>
                                (Returned (Inr (getNextRefreshFromExpiration
                                   (time_Until h expiresAt) (rand_Float64 h))),
                                 act [Log claimsString] s3)))))))"

text \<open>
  \<^verbatim>\<open>fetchAndWriteTokenWithRetry\<close> (reached through \<^verbatim>\<open>fetchAndWriteToken\<close>): the
  directory, one synchronous refresh, then the refresher goroutine is spawned with the
  timer set to the returned duration. The goroutine itself runs concurrently and is
  not part of this function's result.
\<close>

definition fetchAndWriteToken :: "Host \<Rightarrow> ContainerRunner \<Rightarrow> state \<Rightarrow> (error option) outcome \<times> state" where
  "fetchAndWriteToken h r s0 =
     (let s1 = act [CallMkdirAll hostTokenPath perm_0744] s0 in
      case MkdirAll h of
        Some err \<Rightarrow> (Returned (Some err), s1)
      | None \<Rightarrow>
         (case refreshToken h r s1 of
            (Panicked, s2) \<Rightarrow> (Panicked, s2)
          | (Blocked, s2) \<Rightarrow> (Blocked, s2)
          | (Returned (Inl err), s2) \<Rightarrow> (Returned (Some err), s2)
          | (Returned (Inr duration), s2) \<Rightarrow> (Returned None, act [SpawnRefresher duration] s2)))"

subsection \<open>Measuring the container claims\<close>

text \<open>
  One call of \<^verbatim>\<open>r.attestAgent.MeasureEvent\<close>: the call is traced; when it succeeds the
  event joins the measured events.
\<close>

definition measure_event :: "AttestationAgent \<Rightarrow> CosTlv \<Rightarrow> state \<Rightarrow> error option \<times> state" where
  "measure_event a ev s =
     (case MeasureEvent a (events s) ev of
        Some err \<Rightarrow> (Some err, act [CallMeasureEvent ev] s)
      | None \<Rightarrow> (None, act [CallMeasureEvent ev] (s\<lparr>events := events s @ [ev]\<rparr>)))"

text \<open>
  A run of \<^verbatim>\<open>MeasureEvent\<close> calls, each followed by
  \<^verbatim>\<open>if err != nil { return err }\<close>: the \<^verbatim>\<open>for ... range\<close> loops and the straight-line
  calls of \<^verbatim>\<open>measureContainerClaims\<close>.
\<close>

fun measure_all :: "AttestationAgent \<Rightarrow> CosTlv list \<Rightarrow> state \<Rightarrow> error option \<times> state" where
  "measure_all a [] s = (None, s)"
| "measure_all a (ev # evs) s =
     (case measure_event a ev s of
        (Some err, s') \<Rightarrow> (Some err, s')
      | (None, s') \<Rightarrow> measure_all a evs s')"

text \<open>\<^verbatim>\<open>formatEnvVars\<close>: the loop stops at the first variable that does not format.\<close>

fun formatEnvVars :: "Host \<Rightarrow> EnvVar list \<Rightarrow> error + string list" where
  "formatEnvVars h [] = Inr []"
| "formatEnvVars h (envVar # envVars) =
     (case FormatEnvVar h (Name envVar) (Value envVar) of
        Inl err \<Rightarrow> Inl (Errorf ''failed to format env var: %v'' err)
      | Inr ociFormat \<Rightarrow>
         (case formatEnvVars h envVars of
            Inl err \<Rightarrow> Inl err
          | Inr result \<Rightarrow> Inr (ociFormat # result)))"

definition tlv :: "CosType \<Rightarrow> bytes \<Rightarrow> CosTlv" where
  "tlv t c = \<lparr>EventType = t, EventContent = c\<rparr>"

definition measureContainerClaims :: "Host \<Rightarrow> ContainerRunner \<Rightarrow> state \<Rightarrow> error option \<times> state" where
  "measureContainerClaims h r s0 =
     (case Container_Image (container r) of
        Inl err \<Rightarrow> (Some err, s0)
      | Inr img \<Rightarrow>
         (case measure_all (attestAgent r)
                 ([tlv ImageRefType (Image_Name img),
                   tlv ImageDigestType (Target_Digest img),
                   tlv RestartPolicyType (RestartPolicy (launchSpec r))] @
                  (case Config img of
                     Inr imageConfig \<Rightarrow> [tlv ImageIDType (Digest imageConfig)]
                   | Inl err \<Rightarrow> [])) s0 of
            (Some err, s1) \<Rightarrow> (Some err, s1)
          | (None, s1) \<Rightarrow>
             (case Container_Spec (container r) of
                Inl err \<Rightarrow> (Some err, s1)
              | Inr containerSpec \<Rightarrow>
                 (case measure_all (attestAgent r)
                         (map (tlv ArgType) (Args containerSpec) @
                          map (tlv EnvVarType) (Env containerSpec)) s1 of
                    (Some err, s2) \<Rightarrow> (Some err, s2)
                  | (None, s2) \<Rightarrow>
                     (case formatEnvVars h (Envs (launchSpec r)) of
                        Inl err \<Rightarrow> (Some err, s2)
                      | Inr envs \<Rightarrow>
                          measure_all (attestAgent r)
                            (map (tlv OverrideEnvType) envs @
                             map (tlv OverrideArgType) (Cmd (launchSpec r)) @
                             [tlv LaunchSeparatorType []]) s2)))))"

subsection \<open>Run\<close>

text \<open>
  \<^verbatim>\<open>Run\<close>. The deferred calls run when it returns: \<^verbatim>\<open>cancel()\<close> always,
  \<^verbatim>\<open>task.Delete(ctx)\<close> before it once the task exists. An error of \<^verbatim>\<open>task.Wait\<close> is
  printed to the logger and \<^verbatim>\<open>Run\<close> goes on; \<^verbatim>\<open>status := <-exitStatusC\<close> waits for
  the channel.
\<close>

definition Run :: "Host \<Rightarrow> ContainerRunner \<Rightarrow> state \<Rightarrow> (error option) outcome \<times> state" where
  "Run h r s0 =
     (case measureContainerClaims h r s0 of
        (Some err, s1) \<Rightarrow>
          (Returned (Some (Errorf ''failed to measure container claims: %v'' err)),
           act [CallCancel] s1)
      | (None, s1) \<Rightarrow>
         (case fetchAndWriteToken h r s1 of
            (Panicked, s2) \<Rightarrow> (Panicked, act [CallCancel] s2)
          | (Blocked, s2) \<Rightarrow> (Blocked, s2)
          | (Returned (Some err), s2) \<Rightarrow>
              (Returned (Some (Errorf ''failed to fetch and write OIDC token: %v'' err)),
               act [CallCancel] s2)
          | (Returned None, s2) \<Rightarrow>
             (let s3 = act [Log (if LogRedirect (launchSpec r)
                                 then ''container stdout/stderr will be redirected''
                                 else ''container stdout/stderr will not be redirected''),
                            CallNewTask (LogRedirect (launchSpec r))] s2 in
              case NewTask (container r) of
                Inl err \<Rightarrow> (Returned (Some (RetryableError err)), act [CallCancel] s3)
              | Inr task \<Rightarrow>
                 (let (exitStatusC, werr) = Wait task;
                      s4 = act ([CallTaskWait] @
                                (case werr of Some err \<Rightarrow> [LogErr [] err] | None \<Rightarrow> []) @
                                [Log ''workload task started'', CallTaskStart]) s3 in
                  case Start task of
                    Some err \<Rightarrow>
                      (Returned (Some (RetryableError err)), act [CallTaskDelete, CallCancel] s4)
                  | None \<Rightarrow>
                     (case exitStatusC of
                        None \<Rightarrow> (Blocked, s4)
                      | Some status \<Rightarrow>
                         (case exit_err status of
                            Some err \<Rightarrow>
                              (Returned (Some err), act [CallTaskDelete, CallCancel] s4)
                          | None \<Rightarrow>
                             if code status \<noteq> 0
                             then (Returned (Some (WorkloadError (code status))),
                                   act [Log ''workload task ended and returned non-zero'',
                                        CallTaskDelete, CallCancel] s4)
                             else (Returned None,
                                   act [Log ''workload task ended and returned 0'',
                                        CallTaskDelete, CallCancel] s4)))))))"

subsection \<open>NewRunner\<close>

text \<open>
  \<^verbatim>\<open>spec.LaunchPolicy\<close>: whether the image allows a command override, and the
  environment variables it allows to override.
\<close>

record LaunchPolicy =
  AllowedCmdOverride :: bool
  AllowedEnvOverride :: "string list"

text \<open>
  What construction calls besides the host: the OAuth token's validity, the two ways
  to pull, \<^verbatim>\<open>LoadContainer\<close> (no error: a container with the reserved id exists),
  \<^verbatim>\<open>spec.GetLaunchPolicy\<close> and \<^verbatim>\<open>launchPolicy.Verify\<close>, \<^verbatim>\<open>os.Hostname\<close>,
  \<^verbatim>\<open>cdClient.NewContainer\<close> (a container, possibly nil, and an error),
  \<^verbatim>\<open>google.DefaultClient\<close> and \<^verbatim>\<open>rest.NewClient\<close> of \<^verbatim>\<open>getRESTClient\<close>, and the
  agent \<^verbatim>\<open>agent.CreateAttestationAgent\<close> builds.
\<close>

record Client =
  token_Valid :: bool
  Pull_with_resolver :: "error + Image"
  Pull :: "error + Image"
  LoadContainer :: "error option"
  GetLaunchPolicy :: "(string \<rightharpoonup> string) \<Rightarrow> error + LaunchPolicy"
  Verify :: "LaunchPolicy \<Rightarrow> LaunchSpec \<Rightarrow> error option"
  Hostname :: "error + string"
  NewContainer :: "Container option \<times> error option"
  DefaultClient :: "error option"
  rest_NewClient :: "error option"
  CreateAttestationAgent :: AttestationAgent

definition initImage :: "Client \<Rightarrow> (error + Image) \<times> action list" where
  "initImage c =
     (if token_Valid c
      then (case Pull_with_resolver c of
              Inl err \<Rightarrow> (Inl (Errorf ''cannot pull the image: %w'' err), [CallPull True])
            | Inr img \<Rightarrow> (Inr img, [CallPull True]))
      else (case Pull c of
              Inl err \<Rightarrow>
                (Inl (Errorf
                   ''cannot pull the image (no token, only works for a public image): %w'' err),
                 [CallPull False])
            | Inr img \<Rightarrow> (Inr img, [CallPull False])))"

definition appendTokenMounts :: "Mount list \<Rightarrow> Mount list" where
  "appendTokenMounts mounts =
     mounts @ [\<lparr>Destination = containerTokenMountPath, Type = ''bind'',
                Source = hostTokenPath, Options = [''rbind'', ''ro'']\<rparr>]"

text \<open>
  The two media types \<^verbatim>\<open>v1.MediaTypeImageConfig\<close> and
  \<^verbatim>\<open>images.MediaTypeDockerSchema2Config\<close>.
\<close>

definition MediaTypeImageConfig :: string where
  "MediaTypeImageConfig = ''application/vnd.oci.image.config.v1+json''"

definition MediaTypeDockerSchema2Config :: string where
  "MediaTypeDockerSchema2Config = ''application/vnd.docker.container.image.v1+json''"

definition getImageLabels :: "Image \<Rightarrow> error + (string \<rightharpoonup> string)" where
  "getImageLabels img =
     (case Config img of
        Inl err \<Rightarrow> Inl err
      | Inr ic \<Rightarrow>
          if MediaType ic = MediaTypeImageConfig \<or> MediaType ic = MediaTypeDockerSchema2Config
          then (case ReadBlob img of
                  Inl err \<Rightarrow> Inl err
                | Inr p \<Rightarrow>
                   (case Unmarshal_Labels img p of
                      Inl err \<Rightarrow> Inl err
                    | Inr labels \<Rightarrow> Inr labels))
          else Inl (ErrNew (''unknown image config media type '' @ MediaType ic)))"

definition getRESTClient :: "Client \<Rightarrow> error option" where
  "getRESTClient c =
     (case DefaultClient c of
        Some err \<Rightarrow> Some (Errorf ''failed to create HTTP client: %v'' err)
      | None \<Rightarrow> rest_NewClient c)"

text \<open>
  The part of \<^verbatim>\<open>NewRunner\<close> from the \<^verbatim>\<open>cdClient.NewContainer\<close> call on, given the
  formatted environment, the mounts, the host name and the actions taken so far.
  \<^verbatim>\<open>container.Spec\<close> on a nil container (no container and no error from
  \<^verbatim>\<open>NewContainer\<close>) is a panic. The closure \<^verbatim>\<open>principalFetcher\<close> is only built here,
  not called.
\<close>

definition NewRunner_container :: "Client \<Rightarrow> LaunchSpec \<Rightarrow> string list \<Rightarrow> Mount list \<Rightarrow> string \<Rightarrow> action list \<Rightarrow> (error + ContainerRunner) outcome \<times> action list" where
  "NewRunner_container c ls envs mounts hostname t4 =
     (let t5 = t4 @ [CallNewContainer (Cmd ls) envs mounts hostname]
      in case NewContainer c of
           (cont, Some err) \<Rightarrow>
             (Returned (Inl (RetryableError (Errorf ''failed to create a container: [%w]'' err))),
              t5 @ (case cont of Some x \<Rightarrow> [CallContainerDelete] | None \<Rightarrow> []))
         | (None, None) \<Rightarrow> (Panicked, t5)
         | (Some cont, None) \<Rightarrow>
            (case Container_Spec cont of
               Inl err \<Rightarrow> (Returned (Inl (RetryableError err)), t5)
             | Inr containerSpec \<Rightarrow>
                if length (Args containerSpec) \<le> length (Cmd ls)
                then (Returned (Inl (ErrNew
                        ''length of Args is shorter or equal to the length of the given Cmd, maybe the Entrypoint is set to empty in the image?'')),
                      t5)
                else (case getRESTClient c of
                        Some err \<Rightarrow>
                          (Returned (Inl (Errorf ''failed to create REST verifier client: %v'' err)),
                           t5)
                      | None \<Rightarrow>
                          (Returned (Inr \<lparr>container = cont, launchSpec = ls,
                                          attestAgent = CreateAttestationAgent c\<rparr>),
                           t5))))"

text \<open>
  \<^verbatim>\<open>NewRunner\<close>, with the actions it takes. A failure of \<^verbatim>\<open>getImageLabels\<close> is printed
  to the logger and construction goes on with the nil label map.
\<close>

definition NewRunner :: "Host \<Rightarrow> Client \<Rightarrow> LaunchSpec \<Rightarrow> (error + ContainerRunner) outcome \<times> action list" where
  "NewRunner h c ls =
     (case initImage c of
        (Inl err, t0) \<Rightarrow> (Returned (Inl err), t0)
      | (Inr img, t0) \<Rightarrow>
         (case formatEnvVars h (Envs ls) of
            Inl err \<Rightarrow> (Returned (Inl err), t0)
          | Inr envs \<Rightarrow>
             (let mounts = appendTokenMounts [];
                  t1 = t0 @ [CallLoadContainer] @
                       (case LoadContainer c of None \<Rightarrow> [CallContainerDelete] | Some err \<Rightarrow> []) @
                       [Log ''Operator Input Image Ref   : %v'', Log ''Image Digest               : %v'',
                        Log ''Operator Override Env Vars : %v'', Log ''Operator Override Cmd      : %v''];
                  (imageLabels, t2) =
                     (case getImageLabels img of
                        Inl err \<Rightarrow> (Map.empty, t1 @ [LogErr ''Failed to get image OCI labels %v'' err])
                      | Inr labels \<Rightarrow> (labels, t1));
                  t3 = t2 @ [Log ''Image Labels               : %v'']
              in case GetLaunchPolicy c imageLabels of
                   Inl err \<Rightarrow> (Returned (Inl err), t3)
                 | Inr launchPolicy \<Rightarrow>
                    (case Verify c launchPolicy ls of
                       Some err \<Rightarrow> (Returned (Inl err), t3)
                     | None \<Rightarrow>
                        (let t4 = t3 @
                               (case Config img of
                                  Inl err \<Rightarrow> [LogErr [] err]
                                | Inr imageConfig \<Rightarrow>
                                    [Log ''Image ID                   : %v'',
                                     Log ''Image Annotations          : %v''])
                         in case Hostname c of
                              Inl err \<Rightarrow>
                                (Returned (Inl (RetryableError
                                   (Errorf ''cannot get hostname: [%w]'' err))), t4)
                            | Inr hostname \<Rightarrow>
                                NewRunner_container c ls envs mounts hostname t4)))))"

section \<open>Quote verification (internal/quote.go)\<close>

text \<open>
  \<^verbatim>\<open>tpm2.Algorithm\<close> is a 16-bit identifier; \<^verbatim>\<open>tpm2.Signature\<close> holds the scheme and
  two pointers, of which the decoder fills the one of the scheme and leaves the other
  nil.
\<close>

type_synonym Algorithm = "16 word"

definition AlgRSASSA :: Algorithm where
  "AlgRSASSA = 0x14"

definition AlgECDSA :: Algorithm where
  "AlgECDSA = 0x18"

definition TagAttestQuote :: "16 word" where
  "TagAttestQuote = 0x8018"

record SignatureRSA =
  RSA_HashAlg :: Algorithm
  RSA_Signature :: bytes

record SignatureECC =
  ECC_HashAlg :: Algorithm
  R :: int
  S :: int

record Signature =
  Alg :: Algorithm
  RSA :: "SignatureRSA option"
  ECC :: "SignatureECC option"

record PCRSelection =
  Hash :: Algorithm
  PCRs :: "int list"

record QuoteInfo =
  QI_PCRSelection :: PCRSelection
  QI_PCRDigest :: bytes

record AttestationData =
  AD_Type :: "16 word"
  ExtraData :: bytes
  AttestedQuoteInfo :: "QuoteInfo option"

text \<open>\<^verbatim>\<open>pb.Pcrs\<close> and \<^verbatim>\<open>pb.Quote\<close>; \<^verbatim>\<open>GetPcrs()\<close> is nil when the field is unset.\<close>

record Pcrs =
  Pcrs_hash :: int
  Pcrs_pcrs :: "(nat \<times> bytes) list"

record Quote =
  GetQuote :: bytes
  GetRawSig :: bytes
  GetPcrs :: "Pcrs option"

text \<open>
  \<^verbatim>\<open>crypto.PublicKey\<close> is any value; the type switch tells an ECDSA key, an RSA key
  and anything else apart. Key material is an opaque encoding.
\<close>

datatype PublicKey = ECDSA_PublicKey bytes | RSA_PublicKey bytes | Other_PublicKey string

text \<open>
  The library calls of \<^verbatim>\<open>VerifyQuote\<close>: \<^verbatim>\<open>tpm2.DecodeSignature\<close>,
  \<^verbatim>\<open>Algorithm.Hash()\<close> (a \<^verbatim>\<open>crypto.Hash\<close> identifier or an error), hashing under a
  \<^verbatim>\<open>crypto.Hash\<close> (\<^verbatim>\<open>hash.New()\<close>, \<^verbatim>\<open>Write\<close>, \<^verbatim>\<open>Sum(nil)\<close>), \<^verbatim>\<open>ecdsa.Verify\<close>,
  \<^verbatim>\<open>rsa.VerifyPKCS1v15\<close>, \<^verbatim>\<open>tpm2.DecodeAttestationData\<close>, and the package's own
  \<^verbatim>\<open>SamePCRSelection\<close> and \<^verbatim>\<open>PCRDigest\<close>.
\<close>

record Crypto =
  DecodeSignature :: "bytes \<Rightarrow> error + Signature"
  Alg_Hash :: "Algorithm \<Rightarrow> error + nat"
  hash_Sum :: "nat \<Rightarrow> bytes \<Rightarrow> bytes"
  ecdsa_Verify :: "bytes \<Rightarrow> bytes \<Rightarrow> int \<Rightarrow> int \<Rightarrow> bool"
  rsa_VerifyPKCS1v15 :: "bytes \<Rightarrow> nat \<Rightarrow> bytes \<Rightarrow> bytes \<Rightarrow> error option"
  DecodeAttestationData :: "bytes \<Rightarrow> error + AttestationData"
  SamePCRSelection :: "Pcrs option \<Rightarrow> PCRSelection \<Rightarrow> bool"
  PCRDigest :: "Pcrs option \<Rightarrow> nat \<Rightarrow> bytes"

text \<open>\<^verbatim>\<open>subtle.ConstantTimeCompare\<close>: 1 when the two slices are equal, 0 otherwise.\<close>

definition ConstantTimeCompare :: "bytes \<Rightarrow> bytes \<Rightarrow> int" where
  "ConstantTimeCompare x y = (if x = y then 1 else 0)"

text \<open>
  \<^verbatim>\<open>verifyECDSAQuoteSignature\<close>; \<^verbatim>\<open>sig.ECC.R\<close> dereferences \<^verbatim>\<open>sig.ECC\<close>.
\<close>

definition verifyECDSAQuoteSignature :: "Crypto \<Rightarrow> bytes \<Rightarrow> nat \<Rightarrow> bytes \<Rightarrow> Signature \<Rightarrow> (error option) outcome" where
  "verifyECDSAQuoteSignature cr ecdsaPub hash quoted sig =
     (if Alg sig \<noteq> AlgECDSA
      then Returned (Some (ErrNew
             ''signature scheme is not supported, only ECDSA is supported''))
      else (case ECC sig of
              None \<Rightarrow> Panicked
            | Some ecc \<Rightarrow>
                if \<not> ecdsa_Verify cr ecdsaPub (hash_Sum cr hash quoted) (R ecc) (S ecc)
                then Returned (Some (ErrNew ''ECC signature verification failed''))
                else Returned None))"

definition verifyRSASSAQuoteSignature :: "Crypto \<Rightarrow> bytes \<Rightarrow> nat \<Rightarrow> bytes \<Rightarrow> Signature \<Rightarrow> (error option) outcome" where
  "verifyRSASSAQuoteSignature cr rsaPub hash quoted sig =
     (if Alg sig \<noteq> AlgRSASSA
      then Returned (Some (ErrNew
             ''signature scheme is not supported, only RSASSA (PKCS#1 v1.5) is supported''))
      else (case RSA sig of
              None \<Rightarrow> Panicked
            | Some rsa \<Rightarrow>
               (case rsa_VerifyPKCS1v15 cr rsaPub hash (hash_Sum cr hash quoted)
                       (RSA_Signature rsa) of
                  Some err \<Rightarrow>
                    Returned (Some (Errorf ''RSASSA signature verification failed: %v'' err))
                | None \<Rightarrow> Returned None)))"

definition validatePCRDigest :: "Crypto \<Rightarrow> QuoteInfo \<Rightarrow> Pcrs option \<Rightarrow> nat \<Rightarrow> error option" where
  "validatePCRDigest cr quoteInfo pcrs hash =
     (if \<not> SamePCRSelection cr pcrs (QI_PCRSelection quoteInfo)
      then Some (ErrNew ''given PCRs and Quote do not have the same PCR selection'')
      else if ConstantTimeCompare (QI_PCRDigest quoteInfo) (PCRDigest cr pcrs hash) = 0
      then Some (ErrNew ''given PCRs digest not matching'')
      else None)"

text \<open>
  The second half of \<^verbatim>\<open>VerifyQuote\<close>, after the \<^verbatim>\<open>switch\<close> on the key type.
\<close>

definition verifyAttestationData :: "Crypto \<Rightarrow> Quote \<Rightarrow> bytes \<Rightarrow> nat \<Rightarrow> (error option) outcome" where
  "verifyAttestationData cr q extraData hash =
     (case DecodeAttestationData cr (GetQuote q) of
        Inl err \<Rightarrow> Returned (Some (Errorf ''decoding attestation data failed: %v'' err))
      | Inr attestationData \<Rightarrow>
          if AD_Type attestationData \<noteq> TagAttestQuote
          then Returned (Some (ErrNew ''expected quote tag''))
          else (case AttestedQuoteInfo attestationData of
                  None \<Rightarrow> Returned (Some (ErrNew ''attestation data does not contain quote info''))
                | Some attestedQuoteInfo \<Rightarrow>
                    if ConstantTimeCompare (ExtraData attestationData) extraData = 0
                    then Returned (Some (ErrNew
                           ''quote extraData did not match expected extraData''))
                    else Returned (validatePCRDigest cr attestedQuoteInfo (GetPcrs q) hash)))"

text \<open>
  \<^verbatim>\<open>VerifyQuote\<close>. In the ECDSA case \<^verbatim>\<open>sig.ECC.HashAlg\<close> is read before anything looks
  at \<^verbatim>\<open>sig.Alg\<close>, and likewise \<^verbatim>\<open>sig.RSA.HashAlg\<close> in the RSA case: a nil pointer
  there is a panic.
\<close>

definition VerifyQuote :: "Crypto \<Rightarrow> Quote \<Rightarrow> PublicKey \<Rightarrow> bytes \<Rightarrow> (error option) outcome" where
  "VerifyQuote cr q trustedPub extraData =
     (case DecodeSignature cr (GetRawSig q) of
        Inl err \<Rightarrow> Returned (Some (Errorf ''signature decoding failed: %v'' err))
      | Inr sig \<Rightarrow>
         (case trustedPub of
            ECDSA_PublicKey pub \<Rightarrow>
             (case ECC sig of
                None \<Rightarrow> Panicked
              | Some ecc \<Rightarrow>
                 (case Alg_Hash cr (ECC_HashAlg ecc) of
                    Inl err \<Rightarrow> Returned (Some err)
                  | Inr hash \<Rightarrow>
                     (case verifyECDSAQuoteSignature cr pub hash (GetQuote q) sig of
                        Returned None \<Rightarrow> verifyAttestationData cr q extraData hash
                      | other \<Rightarrow> other)))
          | RSA_PublicKey pub \<Rightarrow>
             (case RSA sig of
                None \<Rightarrow> Panicked
              | Some rsa \<Rightarrow>
                 (case Alg_Hash cr (RSA_HashAlg rsa) of
                    Inl err \<Rightarrow> Returned (Some err)
                  | Inr hash \<Rightarrow>
                     (case verifyRSASSAQuoteSignature cr pub hash (GetQuote q) sig of
                        Returned None \<Rightarrow> verifyAttestationData cr q extraData hash
                      | other \<Rightarrow> other)))
          | Other_PublicKey ty \<Rightarrow>
              Returned (Some (ErrNew
                (''only RSA and ECC public keys are currently supported, received type: '' @ ty)))))"

section \<open>Example inputs\<close>

text \<open>
  A run in which every collaborator succeeds: an image with a readable config, a
  container whose spec has two arguments and one environment entry, one override of
  each kind, a token that expires 1000 ns after the clock, and a task that exits
  with code 0. The closed instances below vary it field by field.
\<close>

definition demo_image :: Image where
  "demo_image = \<lparr>Image_Name = ''gcr.io/x/app'', Target_Digest = ''sha256:abc'',
     Config = Inr \<lparr>MediaType = MediaTypeImageConfig, Digest = ''sha256:cfg''\<rparr>,
     ReadBlob = Inr ''{}'', Unmarshal_Labels = (\<lambda>p. Inr Map.empty)\<rparr>"

definition demo_task :: Task where
  "demo_task = \<lparr>Wait = (Some \<lparr>code = 0, exit_err = None\<rparr>, None), Start = None\<rparr>"

definition demo_container :: Container where
  "demo_container = \<lparr>Container_Image = Inr demo_image,
     Container_Spec = Inr \<lparr>Args = [''/entry'', ''./run''], Env = [''PATH=/bin'']\<rparr>,
     NewTask = Inr demo_task\<rparr>"

definition demo_agent :: AttestationAgent where
  "demo_agent = \<lparr>MeasureEvent = (\<lambda>log ev. None), Attest = Inr ''token''\<rparr>"

definition demo_spec :: LaunchSpec where
  "demo_spec = \<lparr>ImageRef = ''gcr.io/x/app'', Cmd = [''./run''],
     Envs = [\<lparr>Name = ''FOO'', Value = ''bar''\<rparr>], RestartPolicy = ''Never'',
     ImpersonateServiceAccounts = [], AttestationServiceAddr = [], ProjectID = ''p'',
     Region = ''r'', LogRedirect = False\<rparr>"

definition demo_runner :: ContainerRunner where
  "demo_runner = \<lparr>container = demo_container, launchSpec = demo_spec, attestAgent = demo_agent\<rparr>"

definition demo_host :: Host where
  "demo_host = \<lparr>FormatEnvVar = (\<lambda>n v. Inr (n @ ''='' @ v)),
     ParseRegistered = (\<lambda>t. Inr \<lparr>ExpiresAt = Some 1000\<rparr>),
     ParseMap = (\<lambda>t. Inr Map.empty), MarshalIndent = (\<lambda>m. Inr ''{}''),
     MkdirAll = None, WriteFile = None, WriteFile_partial = None,
     time_Now = 0, time_Now_later = 0, rand_Float64 = 1 / 2\<rparr>"

definition demo_state :: state where
  "demo_state = \<lparr>events = [], files = Map.empty, trace = []\<rparr>"

text \<open>
  Construction inputs in which every step succeeds: no token, a public pull of the
  example image, no earlier container, a launch policy that allows the command
  override and the variable \<open>FOO\<close>, a check of the overrides against the policy, and a
  created container whose spec has the image's entry point before the command
  override.
\<close>

definition demo_Verify :: "LaunchPolicy \<Rightarrow> LaunchSpec \<Rightarrow> error option" where
  "demo_Verify policy ls =
     (if \<not> AllowedCmdOverride policy \<and> Cmd ls \<noteq> []
      then Some (ErrNew ''CMD is not allowed to be overridden on this image'')
      else if list_ex (\<lambda>v. Name v \<notin> set (AllowedEnvOverride policy)) (Envs ls)
      then Some (ErrNew ''env var is not allowed to be overridden on this image'')
      else None)"

definition demo_client :: Client where
  "demo_client = \<lparr>token_Valid = False,
     Pull_with_resolver = Inl (ErrNew ''no token''), Pull = Inr demo_image,
     LoadContainer = Some (ErrNew ''container not found''),
     GetLaunchPolicy = (\<lambda>labels. Inr \<lparr>AllowedCmdOverride = True, AllowedEnvOverride = [''FOO'']\<rparr>),
     Verify = demo_Verify,
     Hostname = Inr ''host'', NewContainer = (Some demo_container, None),
     DefaultClient = None, rest_NewClient = None,
     CreateAttestationAgent = demo_agent\<rparr>"

text \<open>
  The same, for an image with an empty entry point: the created container's
  arguments are the command override alone.
\<close>

definition no_entrypoint_client :: Client where
  "no_entrypoint_client = demo_client\<lparr>NewContainer :=
     (Some (demo_container\<lparr>Container_Spec := Inr \<lparr>Args = [''./run''], Env = [''PATH=/bin'']\<rparr>\<rparr>),
      None)\<rparr>"



text \<open>
  A quote signed with RSASSA: the decoder fills \<open>RSA\<close> and leaves \<open>ECC\<close> nil. Every
  check of the example passes for an RSA key.
\<close>

definition demo_crypto :: Crypto where
  "demo_crypto = \<lparr>
     DecodeSignature = (\<lambda>raw. Inr \<lparr>Alg = AlgRSASSA,
        RSA = Some \<lparr>RSA_HashAlg = 0x0B, RSA_Signature = raw\<rparr>, ECC = None\<rparr>),
     Alg_Hash = (\<lambda>a. if a = 0x0B then Inr 5 else Inl (ErrNew ''hash algorithm not supported'')),
     hash_Sum = (\<lambda>hash data. data),
     ecdsa_Verify = (\<lambda>pub digest r s. True),
     rsa_VerifyPKCS1v15 = (\<lambda>pub hash digest sig. None),
     DecodeAttestationData = (\<lambda>quoted. Inr \<lparr>AD_Type = TagAttestQuote, ExtraData = ''nonce'',
        AttestedQuoteInfo = Some \<lparr>QI_PCRSelection = \<lparr>Hash = 0x0B, PCRs = [0]\<rparr>,
                                  QI_PCRDigest = ''digest''\<rparr>\<rparr>),
     SamePCRSelection = (\<lambda>pcrs sel. True),
     PCRDigest = (\<lambda>pcrs hash. ''digest'')\<rparr>"

definition demo_quote :: Quote where
  "demo_quote = \<lparr>GetQuote = ''quoted'', GetRawSig = ''sig'',
     GetPcrs = Some \<lparr>Pcrs_hash = 2, Pcrs_pcrs = [(0, ''pcr0'')]\<rparr>\<rparr>"

section \<open>Measurement\<close>

lemma measure_event_trace:
  "measure_event a ev s = (res, s') \<Longrightarrow> trace s' = trace s @ [CallMeasureEvent ev] \<and> files s' = files s"
  by (auto simp: measure_event_def act_def split: option.splits)

lemma measure_event_events:
  "measure_event a ev s = (None, s') \<Longrightarrow> events s' = events s @ [ev]"
  by (auto simp: measure_event_def act_def split: option.splits)

lemma measure_all_ok:
  "measure_all a evs s = (None, s') \<Longrightarrow>
     trace s' = trace s @ map CallMeasureEvent evs \<and> events s' = events s @ evs \<and> files s' = files s"
proof (induction evs arbitrary: s)
  case Nil
  then show ?case by simp
next
  case (Cons ev evs)
  then obtain s1 where m: "measure_event a ev s = (None, s1)" and r: "measure_all a evs s1 = (None, s')"
    by (auto split: prod.splits option.splits)
  from Cons.IH [OF r] measure_event_trace [OF m] measure_event_events [OF m]
  show ?case by simp
qed

lemma measure_all_any:
  "measure_all a evs s = (res, s') \<Longrightarrow>
     (\<exists>ms. trace s' = trace s @ map CallMeasureEvent ms) \<and> files s' = files s"
proof (induction evs arbitrary: s)
  case Nil
  then show ?case by (auto intro: exI [of _ "[]"])
next
  case (Cons ev evs)
  obtain r1 s1 where m: "measure_event a ev s = (r1, s1)" by (cases "measure_event a ev s")
  note t = measure_event_trace [OF m]
  show ?case
  proof (cases r1)
    case None
    with Cons.prems m have "measure_all a evs s1 = (res, s')" by simp
    from Cons.IH [OF this] obtain ms where "trace s' = trace s1 @ map CallMeasureEvent ms" "files s' = files s1"
      by blast
    with t have "trace s' = trace s @ map CallMeasureEvent (ev # ms)" "files s' = files s" by simp_all
    then show ?thesis by blast
  next
    case (Some e)
    with Cons.prems m have "s' = s1" by simp
    with t have "trace s' = trace s @ map CallMeasureEvent [ev]" "files s' = files s" by simp_all
    then show ?thesis by blast
  qed
qed

lemma formatEnvVars_ok:
  "formatEnvVars h vs = Inr envs \<Longrightarrow>
     map Inr envs = map (\<lambda>v. FormatEnvVar h (Name v) (Value v)) vs"
  by (induction vs arbitrary: envs) (auto split: sum.splits)


lemma measureContainerClaims_any:
  "measureContainerClaims h r s0 = (res, s1) \<Longrightarrow>
     (\<exists>ms. trace s1 = trace s0 @ map CallMeasureEvent ms) \<and> files s1 = files s0"
proof -
  assume a: "measureContainerClaims h r s0 = (res, s1)"
  have app: "\<And>t xs ys. (\<exists>ms. t = (trace s0 @ map CallMeasureEvent xs) @ map CallMeasureEvent ys)
      \<Longrightarrow> (\<exists>ms. t = trace s0 @ map CallMeasureEvent ms)"
    by (metis append.assoc map_append)
  show ?thesis
  proof (cases "Container_Image (container r)")
    case (Inl e)
    with a have "s1 = s0" by (simp add: measureContainerClaims_def)
    then show ?thesis by (auto intro: exI [of _ "[]"])
  next
    case (Inr img)
    let ?evs1 = "[tlv ImageRefType (Image_Name img), tlv ImageDigestType (Target_Digest img),
                   tlv RestartPolicyType (RestartPolicy (launchSpec r))] @
                  (case Config img of Inr imageConfig \<Rightarrow> [tlv ImageIDType (Digest imageConfig)]
                   | Inl err \<Rightarrow> [])"
    obtain r1 t1 where m1: "measure_all (attestAgent r) ?evs1 s0 = (r1, t1)"
      by (cases "measure_all (attestAgent r) ?evs1 s0")
    from measure_all_any [OF m1] obtain ms1 where
      t1: "trace t1 = trace s0 @ map CallMeasureEvent ms1" "files t1 = files s0" by blast
    show ?thesis
    proof (cases r1)
      case (Some e)
      with a Inr m1 have "s1 = t1" by (simp add: measureContainerClaims_def)
      with t1 show ?thesis by blast
    next
      case None
      note r1 = this
      show ?thesis
      proof (cases "Container_Spec (container r)")
        case (Inl e)
        with a Inr m1 r1 have "s1 = t1" by (simp add: measureContainerClaims_def)
        with t1 show ?thesis by blast
      next
        case (Inr spec)
        note sp = this
        let ?evs2 = "map (tlv ArgType) (Args spec) @ map (tlv EnvVarType) (Env spec)"
        obtain r2 t2 where m2: "measure_all (attestAgent r) ?evs2 t1 = (r2, t2)"
          by (cases "measure_all (attestAgent r) ?evs2 t1")
        from measure_all_any [OF m2] t1 obtain ms2 where
          t2: "trace t2 = trace s0 @ map CallMeasureEvent ms2" "files t2 = files s0"
          by (metis append.assoc map_append)
        show ?thesis
        proof (cases r2)
          case (Some e)
          with a \<open>Container_Image (container r) = Inr img\<close> m1 r1 sp m2 have "s1 = t2"
            by (simp add: measureContainerClaims_def)
          with t2 show ?thesis by blast
        next
          case None
          note r2 = this
          show ?thesis
          proof (cases "formatEnvVars h (Envs (launchSpec r))")
            case (Inl e)
            with a \<open>Container_Image (container r) = Inr img\<close> m1 r1 sp m2 r2 have "s1 = t2"
              by (simp add: measureContainerClaims_def)
            with t2 show ?thesis by blast
          next
            case (Inr envs)
            with a \<open>Container_Image (container r) = Inr img\<close> m1 r1 sp m2 r2
            have "measure_all (attestAgent r)
                    (map (tlv OverrideEnvType) envs @ map (tlv OverrideArgType) (Cmd (launchSpec r)) @
                     [tlv LaunchSeparatorType []]) t2 = (res, s1)"
              by (simp add: measureContainerClaims_def)
            from measure_all_any [OF this] t2 show ?thesis
              by (metis append.assoc map_append)
          qed
        qed
      qed
    qed
  qed
qed

lemma measureContainerClaims_ok:
  assumes "measureContainerClaims h r s0 = (None, s1)"
  shows "\<exists>img spec envs.
     Container_Image (container r) = Inr img \<and> Container_Spec (container r) = Inr spec \<and>
     formatEnvVars h (Envs (launchSpec r)) = Inr envs \<and>
     trace s1 = trace s0 @ map CallMeasureEvent
       ([tlv ImageRefType (Image_Name img), tlv ImageDigestType (Target_Digest img),
         tlv RestartPolicyType (RestartPolicy (launchSpec r))] @
        (case Config img of Inr imageConfig \<Rightarrow> [tlv ImageIDType (Digest imageConfig)]
         | Inl err \<Rightarrow> []) @
        map (tlv ArgType) (Args spec) @ map (tlv EnvVarType) (Env spec) @
        map (tlv OverrideEnvType) envs @ map (tlv OverrideArgType) (Cmd (launchSpec r)) @
        [tlv LaunchSeparatorType []])"
proof -
  from assms obtain img where img: "Container_Image (container r) = Inr img"
    by (cases "Container_Image (container r)") (auto simp: measureContainerClaims_def)
  let ?evs1 = "[tlv ImageRefType (Image_Name img), tlv ImageDigestType (Target_Digest img),
                 tlv RestartPolicyType (RestartPolicy (launchSpec r))] @
                (case Config img of Inr imageConfig \<Rightarrow> [tlv ImageIDType (Digest imageConfig)]
                 | Inl err \<Rightarrow> [])"
  obtain r1 t1 where m1: "measure_all (attestAgent r) ?evs1 s0 = (r1, t1)"
    by (cases "measure_all (attestAgent r) ?evs1 s0")
  from assms img m1 have r1: "r1 = None"
    by (cases r1) (auto simp: measureContainerClaims_def)
  from assms img m1 r1 obtain spec where sp: "Container_Spec (container r) = Inr spec"
    by (cases "Container_Spec (container r)") (auto simp: measureContainerClaims_def)
  let ?evs2 = "map (tlv ArgType) (Args spec) @ map (tlv EnvVarType) (Env spec)"
  obtain r2 t2 where m2: "measure_all (attestAgent r) ?evs2 t1 = (r2, t2)"
    by (cases "measure_all (attestAgent r) ?evs2 t1")
  from assms img m1 r1 sp m2 have r2: "r2 = None"
    by (cases r2) (auto simp: measureContainerClaims_def)
  from assms img m1 r1 sp m2 r2 obtain envs where
    en: "formatEnvVars h (Envs (launchSpec r)) = Inr envs"
    by (cases "formatEnvVars h (Envs (launchSpec r))") (auto simp: measureContainerClaims_def)
  let ?evs3 = "map (tlv OverrideEnvType) envs @ map (tlv OverrideArgType) (Cmd (launchSpec r)) @
               [tlv LaunchSeparatorType []]"
  from assms img m1 r1 sp m2 r2 en have m3: "measure_all (attestAgent r) ?evs3 t2 = (None, s1)"
    by (simp add: measureContainerClaims_def)
  from measure_all_ok [OF m1 [unfolded r1]] measure_all_ok [OF m2 [unfolded r2]]
    measure_all_ok [OF m3]
  have "trace s1 = trace s0 @ map CallMeasureEvent (?evs1 @ ?evs2 @ ?evs3)"
    by simp
  with img sp en show ?thesis by (simp del: map_append)
qed

lemma refreshToken_trace:
  "refreshToken h r s1 = (res, s2) \<Longrightarrow>
     \<exists>new. trace s2 = trace s1 @ new \<and> (\<forall>ev. CallMeasureEvent ev \<notin> set new) \<and>
       (\<forall>b. CallNewTask b \<notin> set new) \<and> CallTaskStart \<notin> set new"
  by (auto simp: refreshToken_def act_def Let_def split: sum.splits option.splits if_splits)

lemma fetchAndWriteToken_trace:
  assumes "fetchAndWriteToken h r s1 = (res, s2)"
  shows "\<exists>new. trace s2 = trace s1 @ new \<and> (\<forall>ev. CallMeasureEvent ev \<notin> set new) \<and>
       (\<forall>b. CallNewTask b \<notin> set new) \<and> CallTaskStart \<notin> set new"
proof (cases "MkdirAll h")
  case (Some e)
  with assms show ?thesis by (auto simp: fetchAndWriteToken_def act_def)
next
  case None
  obtain rr t where rt: "refreshToken h r (act [CallMkdirAll hostTokenPath perm_0744] s1) = (rr, t)"
    by (cases "refreshToken h r (act [CallMkdirAll hostTokenPath perm_0744] s1)")
  from refreshToken_trace [OF rt] obtain new where
    n: "trace t = trace s1 @ CallMkdirAll hostTokenPath perm_0744 # new"
       "\<forall>ev. CallMeasureEvent ev \<notin> set new" "\<forall>b. CallNewTask b \<notin> set new" "CallTaskStart \<notin> set new"
    by (auto simp: act_def)
  from assms None rt have "s2 = t \<or> (\<exists>d. s2 = act [SpawnRefresher d] t)"
    by (auto simp: fetchAndWriteToken_def Let_def split: outcome.splits sum.splits)
  then show ?thesis
  proof
    assume "s2 = t"
    with n show ?thesis by auto
  next
    assume "\<exists>d. s2 = act [SpawnRefresher d] t"
    then obtain d where "s2 = act [SpawnRefresher d] t" ..
    with n have "trace s2 = trace s1 @ (CallMkdirAll hostTokenPath perm_0744 # new @ [SpawnRefresher d])"
      by (simp add: act_def)
    moreover from n have "(\<forall>ev. CallMeasureEvent ev \<notin> set (CallMkdirAll hostTokenPath perm_0744 # new @ [SpawnRefresher d]))
      \<and> (\<forall>b. CallNewTask b \<notin> set (CallMkdirAll hostTokenPath perm_0744 # new @ [SpawnRefresher d]))
      \<and> CallTaskStart \<notin> set (CallMkdirAll hostTokenPath perm_0744 # new @ [SpawnRefresher d])" by simp
    ultimately show ?thesis by blast
  qed
qed


section \<open>Run\<close>

lemma Run_measure_failed:
  "measureContainerClaims h r s0 = (Some e, s1) \<Longrightarrow>
     Run h r s0 = (Returned (Some (Errorf ''failed to measure container claims: %v'' e)),
                   act [CallCancel] s1)"
  by (simp add: Run_def)

lemma Run_token_failed:
  "measureContainerClaims h r s0 = (None, s1) \<Longrightarrow> fetchAndWriteToken h r s1 = (fres, s2) \<Longrightarrow>
   fres \<noteq> Returned None \<Longrightarrow>
     fst (Run h r s0) =
       (case fres of Returned (Some err) \<Rightarrow>
               Returned (Some (Errorf ''failed to fetch and write OIDC token: %v'' err))
        | other \<Rightarrow> other) \<and>
     (trace (snd (Run h r s0)) = trace s2 \<or> trace (snd (Run h r s0)) = trace s2 @ [CallCancel]) \<and>
     files (snd (Run h r s0)) = files s2"
  by (auto simp: Run_def act_def split: outcome.splits option.splits)

lemma Run_token_ok:
  "measureContainerClaims h r s0 = (None, s1) \<Longrightarrow>
   fetchAndWriteToken h r s1 = (Returned None, s2) \<Longrightarrow>
     \<exists>tail. trace (snd (Run h r s0)) =
         trace s2 @ Log (if LogRedirect (launchSpec r)
                         then ''container stdout/stderr will be redirected''
                         else ''container stdout/stderr will not be redirected'') #
                    CallNewTask (LogRedirect (launchSpec r)) # tail \<and>
       (\<forall>ev. CallMeasureEvent ev \<notin> set tail) \<and>
       files (snd (Run h r s0)) = files s2"
  by (auto simp: Run_def act_def Let_def split: sum.splits option.splits prod.splits)


text \<open>
  Claim C1. A run that reaches the start of the task
  (\<open>CallTaskStart\<close> is in its trace) has made exactly these \<^verbatim>\<open>MeasureEvent\<close> calls, in
  this order and before anything else: ImageRef, ImageDigest, RestartPolicy, ImageID
  if and only if \<^verbatim>\<open>image.Config\<close> gave no error, one Arg per argument of the container
  spec, one EnvVar per environment entry of the container spec, one OverrideEnv per
  environment override of the launch spec (formatted), one OverrideArg per element of
  \<^verbatim>\<open>Cmd\<close>, and the LaunchSeparator with empty content. No \<^verbatim>\<open>MeasureEvent\<close> call follows.
\<close>

theorem Run_measured_event_sequence:
  assumes "trace s0 = []"
    and "CallTaskStart \<in> set (trace (snd (Run h r s0)))"
  shows "\<exists>img spec envs rest.
     Container_Image (container r) = Inr img \<and> Container_Spec (container r) = Inr spec \<and>
     map Inr envs = map (\<lambda>v. FormatEnvVar h (Name v) (Value v)) (Envs (launchSpec r)) \<and>
     trace (snd (Run h r s0)) =
       map CallMeasureEvent
         ([tlv ImageRefType (Image_Name img), tlv ImageDigestType (Target_Digest img),
           tlv RestartPolicyType (RestartPolicy (launchSpec r))] @
          (case Config img of Inr imageConfig \<Rightarrow> [tlv ImageIDType (Digest imageConfig)]
           | Inl err \<Rightarrow> []) @
          map (tlv ArgType) (Args spec) @ map (tlv EnvVarType) (Env spec) @
          map (tlv OverrideEnvType) envs @ map (tlv OverrideArgType) (Cmd (launchSpec r)) @
          [tlv LaunchSeparatorType []]) @ rest \<and>
     (\<forall>ev. CallMeasureEvent ev \<notin> set rest) \<and> CallTaskStart \<in> set rest"
proof -
  obtain mres s1 where m: "measureContainerClaims h r s0 = (mres, s1)"
    by (cases "measureContainerClaims h r s0")
  have mres: "mres = None"
  proof (cases mres)
    case (Some e)
    from measureContainerClaims_any [OF m] obtain ms where "trace s1 = trace s0 @ map CallMeasureEvent ms"
      by blast
    with Run_measure_failed [OF m [unfolded Some]] assms show ?thesis
      by (auto simp: act_def)
  qed simp
  note m = m [unfolded mres]
  obtain fres s2 where f: "fetchAndWriteToken h r s1 = (fres, s2)"
    by (cases "fetchAndWriteToken h r s1")
  from fetchAndWriteToken_trace [OF f] obtain new where
    new: "trace s2 = trace s1 @ new" "\<forall>ev. CallMeasureEvent ev \<notin> set new"
         "\<forall>b. CallNewTask b \<notin> set new" "CallTaskStart \<notin> set new"
    by blast
  from measureContainerClaims_ok [OF m] obtain img spec envs where
    ok: "Container_Image (container r) = Inr img" "Container_Spec (container r) = Inr spec"
        "formatEnvVars h (Envs (launchSpec r)) = Inr envs"
    and tr: "trace s1 = trace s0 @ map CallMeasureEvent
       ([tlv ImageRefType (Image_Name img), tlv ImageDigestType (Target_Digest img),
         tlv RestartPolicyType (RestartPolicy (launchSpec r))] @
        (case Config img of Inr imageConfig \<Rightarrow> [tlv ImageIDType (Digest imageConfig)]
         | Inl err \<Rightarrow> []) @
        map (tlv ArgType) (Args spec) @ map (tlv EnvVarType) (Env spec) @
        map (tlv OverrideEnvType) envs @ map (tlv OverrideArgType) (Cmd (launchSpec r)) @
        [tlv LaunchSeparatorType []])" (is "_ = _ @ map CallMeasureEvent ?evs")
    by blast
  have fres: "fres = Returned None"
  proof (rule ccontr)
    assume "fres \<noteq> Returned None"
    from Run_token_failed [OF m f this]
    have "set (trace (snd (Run h r s0))) \<subseteq> set (trace s2) \<union> {CallCancel}" by auto
    with assms(2) have "CallTaskStart \<in> set (trace s2)" by auto
    with new tr assms(1) show False by auto
  qed
  from Run_token_ok [OF m f [unfolded fres]] obtain tail where
    tail: "trace (snd (Run h r s0)) =
         trace s2 @ Log (if LogRedirect (launchSpec r)
                         then ''container stdout/stderr will be redirected''
                         else ''container stdout/stderr will not be redirected'') #
                    CallNewTask (LogRedirect (launchSpec r)) # tail"
      (is "_ = _ @ ?l # ?n # tail")
    and nt: "\<forall>ev. CallMeasureEvent ev \<notin> set tail"
    by blast
  let ?rest = "new @ ?l # ?n # tail"
  from tail new(1) tr assms(1)
  have 1: "trace (snd (Run h r s0)) = map CallMeasureEvent ?evs @ ?rest" by simp
  from new(2) nt have 2: "\<forall>ev. CallMeasureEvent ev \<notin> set ?rest" by auto
  from assms(2) 1 have 3: "CallTaskStart \<in> set ?rest" by auto
  from formatEnvVars_ok [OF ok(3)] ok(1,2) 1 2 3 show ?thesis by blast
qed

theorem Run_measured_event_sequence_witness:
  "trace demo_state = [] \<and>
   CallTaskStart \<in> set (trace (snd (Run demo_host demo_runner demo_state))) \<and>
   (\<exists>rest. trace (snd (Run demo_host demo_runner demo_state)) =
      map CallMeasureEvent
        [tlv ImageRefType ''gcr.io/x/app'', tlv ImageDigestType ''sha256:abc'',
         tlv RestartPolicyType ''Never'', tlv ImageIDType ''sha256:cfg'',
         tlv ArgType ''/entry'', tlv ArgType ''./run'', tlv EnvVarType ''PATH=/bin'',
         tlv OverrideEnvType ''FOO=bar'', tlv OverrideArgType ''./run'',
         tlv LaunchSeparatorType []] @ rest \<and>
      (\<forall>ev. CallMeasureEvent ev \<notin> set rest) \<and> CallTaskStart \<in> set rest)"
proof -
  have 1: "trace demo_state = []" by (simp add: demo_state_def)
  have 2: "CallTaskStart \<in> set (trace (snd (Run demo_host demo_runner demo_state)))"
    by code_simp
  have c: "Container_Image (container demo_runner) = Inr demo_image"
     "Container_Spec (container demo_runner) = Inr \<lparr>Args = [''/entry'', ''./run''], Env = [''PATH=/bin'']\<rparr>"
     "Envs (launchSpec demo_runner) = [\<lparr>Name = ''FOO'', Value = ''bar''\<rparr>]"
     "Cmd (launchSpec demo_runner) = [''./run'']"
     "RestartPolicy (launchSpec demo_runner) = ''Never''"
     "FormatEnvVar demo_host ''FOO'' ''bar'' = Inr ''FOO=bar''"
    by (simp_all add: demo_runner_def demo_container_def demo_spec_def demo_host_def)
  have d: "Image_Name demo_image = ''gcr.io/x/app''" "Target_Digest demo_image = ''sha256:abc''"
     "Config demo_image = Inr \<lparr>MediaType = MediaTypeImageConfig, Digest = ''sha256:cfg''\<rparr>"
    by (simp_all add: demo_image_def)
  from Run_measured_event_sequence [OF 1 2] obtain img spec envs rest where
    r: "Container_Image (container demo_runner) = Inr img"
       "Container_Spec (container demo_runner) = Inr spec"
       "map Inr envs = map (\<lambda>v. FormatEnvVar demo_host (Name v) (Value v)) (Envs (launchSpec demo_runner))"
       "trace (snd (Run demo_host demo_runner demo_state)) =
       map CallMeasureEvent
         ([tlv ImageRefType (Image_Name img), tlv ImageDigestType (Target_Digest img),
           tlv RestartPolicyType (RestartPolicy (launchSpec demo_runner))] @
          (case Config img of Inr imageConfig \<Rightarrow> [tlv ImageIDType (Digest imageConfig)]
           | Inl err \<Rightarrow> []) @
          map (tlv ArgType) (Args spec) @ map (tlv EnvVarType) (Env spec) @
          map (tlv OverrideEnvType) envs @ map (tlv OverrideArgType) (Cmd (launchSpec demo_runner)) @
          [tlv LaunchSeparatorType []]) @ rest"
       "\<forall>ev. CallMeasureEvent ev \<notin> set rest" "CallTaskStart \<in> set rest"
    by blast
  from r(1,2) c(1,2) have e: "img = demo_image" "spec = \<lparr>Args = [''/entry'', ''./run''], Env = [''PATH=/bin'']\<rparr>"
    by simp_all
  from r(3) c(3,6) have "envs = [''FOO=bar'']" by (cases envs) auto
  with r(4) e c d have "trace (snd (Run demo_host demo_runner demo_state)) =
      map CallMeasureEvent
        [tlv ImageRefType ''gcr.io/x/app'', tlv ImageDigestType ''sha256:abc'',
         tlv RestartPolicyType ''Never'', tlv ImageIDType ''sha256:cfg'',
         tlv ArgType ''/entry'', tlv ArgType ''./run'', tlv EnvVarType ''PATH=/bin'',
         tlv OverrideEnvType ''FOO=bar'', tlv OverrideArgType ''./run'',
         tlv LaunchSeparatorType []] @ rest" by simp
  with r(5,6) 1 2 show ?thesis by blast
qed

section \<open>Token refresh\<close>

lemma refreshToken_outcome_state:
  "fst (refreshToken h r s) = fst (refreshToken h r s')"
  by (simp add: refreshToken_def Let_def split: sum.splits option.splits)

lemma refreshToken_expired:
  assumes "Attest (attestAgent r) = Inr token" and "ParseRegistered h token = Inr claims"
    and "ExpiresAt claims = Some expiresAt" and "expiresAt \<le> time_Now h"
  shows "refreshToken h r s =
           (Returned (Inl (ErrNew ''token is expired'')),
            act [Log ''refreshing attestation verifier OIDC token'', CallAttest] s)"
  using assms by (simp add: refreshToken_def Let_def)

lemma refreshToken_ok:
  assumes "refreshToken h r s = (Returned (Inr d), s')"
  shows "\<exists>token claims expiresAt cs.
     Attest (attestAgent r) = Inr token \<and> ParseRegistered h token = Inr claims \<and>
     ExpiresAt claims = Some expiresAt \<and> time_Now h < expiresAt \<and> WriteFile h = None \<and>
     trace s' = trace s @ [Log ''refreshing attestation verifier OIDC token'', CallAttest,
                           CallWriteFile tokenFilePath token perm_0644, Log cs] \<and>
     files s' = (files s)(tokenFilePath \<mapsto> token)"
  using assms
  by (auto simp: refreshToken_def act_def Let_def split: sum.splits option.splits if_splits)

lemma fetchAndWriteToken_ok:
  assumes "fetchAndWriteToken h r s1 = (Returned None, s2)"
  shows "\<exists>token claims expiresAt cs d.
     Attest (attestAgent r) = Inr token \<and> ParseRegistered h token = Inr claims \<and>
     ExpiresAt claims = Some expiresAt \<and> time_Now h < expiresAt \<and> WriteFile h = None \<and>
     fst (refreshToken h r s1) = Returned (Inr d) \<and>
     trace s2 = trace s1 @ [CallMkdirAll hostTokenPath perm_0744,
                            Log ''refreshing attestation verifier OIDC token'', CallAttest,
                            CallWriteFile tokenFilePath token perm_0644, Log cs,
                            SpawnRefresher d] \<and>
     files s2 = (files s1)(tokenFilePath \<mapsto> token)"
proof -
  let ?s = "act [CallMkdirAll hostTokenPath perm_0744] s1"
  obtain rr t where rt: "refreshToken h r ?s = (rr, t)" by (cases "refreshToken h r ?s")
  from assms rt obtain d where d: "rr = Returned (Inr d)" and s2: "s2 = act [SpawnRefresher d] t"
    by (auto simp: fetchAndWriteToken_def Let_def split: option.splits outcome.splits sum.splits)
  from rt d have "fst (refreshToken h r ?s) = Returned (Inr d)" by simp
  then have "fst (refreshToken h r s1) = Returned (Inr d)"
    by (simp add: refreshToken_outcome_state [of h r s1 ?s])
  with refreshToken_ok [OF rt [unfolded d]] s2 show ?thesis
    by (auto simp: act_def)
qed

lemma fetchAndWriteToken_failed:
  assumes "\<forall>d. fst (refreshToken h r s) \<noteq> Returned (Inr d)"
  shows "fst (fetchAndWriteToken h r s1) \<noteq> Returned None"
proof
  assume "fst (fetchAndWriteToken h r s1) = Returned None"
  then obtain s2 where "fetchAndWriteToken h r s1 = (Returned None, s2)"
    by (cases "fetchAndWriteToken h r s1") simp
  from fetchAndWriteToken_ok [OF this] obtain d where "fst (refreshToken h r s1) = Returned (Inr d)"
    by blast
  with assms show False by (simp add: refreshToken_outcome_state [of h r s1 s])
qed

lemma fetchAndWriteToken_expired:
  assumes "Attest (attestAgent r) = Inr token" and "ParseRegistered h token = Inr claims"
    and "ExpiresAt claims = Some expiresAt" and "expiresAt \<le> time_Now h"
  shows "fetchAndWriteToken h r s1 =
     (case MkdirAll h of
        Some e \<Rightarrow> (Returned (Some e), act [CallMkdirAll hostTokenPath perm_0744] s1)
      | None \<Rightarrow> (Returned (Some (ErrNew ''token is expired'')),
                 act [Log ''refreshing attestation verifier OIDC token'', CallAttest]
                   (act [CallMkdirAll hostTokenPath perm_0744] s1)))"
  by (simp add: fetchAndWriteToken_def Let_def refreshToken_expired [OF assms] split: option.splits)

lemma Run_reaches_task:
  assumes "trace s0 = []"
    and "(\<exists>b. CallNewTask b \<in> set (trace (snd (Run h r s0)))) \<or>
         CallTaskStart \<in> set (trace (snd (Run h r s0)))"
  shows "\<exists>s1 s2. measureContainerClaims h r s0 = (None, s1) \<and>
                 fetchAndWriteToken h r s1 = (Returned None, s2)"
proof -
  obtain mres s1 where m: "measureContainerClaims h r s0 = (mres, s1)"
    by (cases "measureContainerClaims h r s0")
  from measureContainerClaims_any [OF m] obtain ms where
    ms: "trace s1 = trace s0 @ map CallMeasureEvent ms" by blast
  have mres: "mres = None"
  proof (cases mres)
    case (Some e)
    with Run_measure_failed [OF m [unfolded Some]] ms assms show ?thesis
      by (auto simp: act_def)
  qed simp
  note m = m [unfolded mres]
  obtain fres s2 where f: "fetchAndWriteToken h r s1 = (fres, s2)"
    by (cases "fetchAndWriteToken h r s1")
  from fetchAndWriteToken_trace [OF f] obtain new where
    new: "trace s2 = trace s1 @ new" "\<forall>b. CallNewTask b \<notin> set new" "CallTaskStart \<notin> set new"
    by blast
  have "fres = Returned None"
  proof (rule ccontr)
    assume "fres \<noteq> Returned None"
    from Run_token_failed [OF m f this]
    have "set (trace (snd (Run h r s0))) \<subseteq> set (trace s2) \<union> {CallCancel}" by auto
    with assms(2) have "(\<exists>b. CallNewTask b \<in> set (trace s2)) \<or> CallTaskStart \<in> set (trace s2)"
      by auto
    with new ms assms(1) show False by auto
  qed
  with m f show ?thesis by blast
qed

text \<open>
  Claim C3. When \<^verbatim>\<open>Attest\<close> returns a token whose parsed \<^verbatim>\<open>exp\<close> is not after
  \<^verbatim>\<open>time.Now()\<close>, \<^verbatim>\<open>refreshToken\<close> returns the error "token is expired", makes no
  \<^verbatim>\<open>os.WriteFile\<close> call and leaves the files as they were (in any iteration, whatever
  the state); \<^verbatim>\<open>Run\<close> then returns an error, with the token-expired error inside when
  it got as far as the refresh, and never creates or starts the task.
\<close>

theorem expired_token_refresh_fails:
  assumes "Attest (attestAgent r) = Inr token" and "ParseRegistered h token = Inr claims"
    and "ExpiresAt claims = Some expiresAt" and "expiresAt \<le> time_Now h"
    and "trace s0 = []"
  shows "fst (refreshToken h r s) = Returned (Inl (ErrNew ''token is expired'')) \<and>
     files (snd (refreshToken h r s)) = files s \<and>
     trace (snd (refreshToken h r s)) =
       trace s @ [Log ''refreshing attestation verifier OIDC token'', CallAttest] \<and>
     (\<exists>e. fst (Run h r s0) = Returned (Some e)) \<and>
     (fst (measureContainerClaims h r s0) = None \<and> MkdirAll h = None \<longrightarrow>
        fst (Run h r s0) =
          Returned (Some (Errorf ''failed to fetch and write OIDC token: %v''
                            (ErrNew ''token is expired'')))) \<and>
     (\<forall>b. CallNewTask b \<notin> set (trace (snd (Run h r s0)))) \<and>
     CallTaskStart \<notin> set (trace (snd (Run h r s0))) \<and>
     (\<forall>p d m. CallWriteFile p d m \<notin> set (trace (snd (Run h r s0)))) \<and>
     files (snd (Run h r s0)) = files s0"
proof -
  note ex = assms(1-4)
  have A: "fst (refreshToken h r s) = Returned (Inl (ErrNew ''token is expired'')) \<and>
     files (snd (refreshToken h r s)) = files s \<and>
     trace (snd (refreshToken h r s)) =
       trace s @ [Log ''refreshing attestation verifier OIDC token'', CallAttest]"
    by (simp add: refreshToken_expired [OF ex] act_def)
  obtain mres s1 where m: "measureContainerClaims h r s0 = (mres, s1)"
    by (cases "measureContainerClaims h r s0")
  from measureContainerClaims_any [OF m] obtain ms where
    ms: "trace s1 = trace s0 @ map CallMeasureEvent ms" "files s1 = files s0" by blast
  have B: "(\<exists>e. fst (Run h r s0) = Returned (Some e)) \<and>
     (fst (measureContainerClaims h r s0) = None \<and> MkdirAll h = None \<longrightarrow>
        fst (Run h r s0) =
          Returned (Some (Errorf ''failed to fetch and write OIDC token: %v''
                            (ErrNew ''token is expired'')))) \<and>
     (\<forall>b. CallNewTask b \<notin> set (trace (snd (Run h r s0)))) \<and>
     CallTaskStart \<notin> set (trace (snd (Run h r s0))) \<and>
     (\<forall>p d m. CallWriteFile p d m \<notin> set (trace (snd (Run h r s0)))) \<and>
     files (snd (Run h r s0)) = files s0"
  proof (cases mres)
    case (Some e)
    from Run_measure_failed [OF m [unfolded Some]] m Some ms assms(5) show ?thesis
      by (auto simp: act_def)
  next
    case None
    note m = m [unfolded None]
    obtain fres s2 where f: "fetchAndWriteToken h r s1 = (fres, s2)"
      by (cases "fetchAndWriteToken h r s1")
    show ?thesis
    proof (cases "MkdirAll h")
      case (Some e)
      with f fetchAndWriteToken_expired [OF ex, of s1]
      have fr: "fres = Returned (Some e)" "s2 = act [CallMkdirAll hostTokenPath perm_0744] s1"
        by simp_all
      then have "fres \<noteq> Returned None" by simp
      from Run_token_failed [OF m f this] fr ms assms(5) Some show ?thesis
        by (auto simp: act_def)
    next
      case None
      with f fetchAndWriteToken_expired [OF ex, of s1]
      have fr: "fres = Returned (Some (ErrNew ''token is expired''))"
        "s2 = act [Log ''refreshing attestation verifier OIDC token'', CallAttest]
                (act [CallMkdirAll hostTokenPath perm_0744] s1)"
        by simp_all
      then have "fres \<noteq> Returned None" by simp
      from Run_token_failed [OF m f this] fr ms assms(5) show ?thesis
        by (auto simp: act_def)
    qed
  qed
  from A B show ?thesis by blast
qed

theorem expired_token_refresh_fails_witness:
  "fst (refreshToken (demo_host\<lparr>time_Now := 1000\<rparr>) demo_runner demo_state) =
     Returned (Inl (ErrNew ''token is expired'')) \<and>
   fst (Run (demo_host\<lparr>time_Now := 1000\<rparr>) demo_runner demo_state) =
     Returned (Some (Errorf ''failed to fetch and write OIDC token: %v''
                       (ErrNew ''token is expired''))) \<and>
   CallTaskStart \<notin> set (trace (snd (Run (demo_host\<lparr>time_Now := 1000\<rparr>) demo_runner demo_state))) \<and>
   files (snd (Run (demo_host\<lparr>time_Now := 1000\<rparr>) demo_runner demo_state)) tokenFilePath = None"
proof -
  let ?h = "demo_host\<lparr>time_Now := 1000\<rparr>"
  have 1: "Attest (attestAgent demo_runner) = Inr ''token''"
    by (simp add: demo_runner_def demo_agent_def)
  have 2: "ParseRegistered ?h ''token'' = Inr \<lparr>ExpiresAt = Some 1000\<rparr>"
    by (simp add: demo_host_def)
  have 3: "ExpiresAt \<lparr>ExpiresAt = Some 1000\<rparr> = Some 1000" by simp
  have 4: "1000 \<le> time_Now ?h" by simp
  have 5: "trace demo_state = []" by (simp add: demo_state_def)
  have 6: "fst (measureContainerClaims ?h demo_runner demo_state) = None" by code_simp
  have 7: "MkdirAll ?h = None" by (simp add: demo_host_def)
  have 8: "files demo_state tokenFilePath = None" by (simp add: demo_state_def)
  from expired_token_refresh_fails [OF 1 2 3 4 5, of demo_state] 6 7 8 show ?thesis
    by simp
qed

text \<open>
  Claim C7. In a run that creates or starts the task, the first refresh has
  succeeded before: \<^verbatim>\<open>Attest\<close> returned a token that expires after \<^verbatim>\<open>time.Now()\<close>, the
  token was written to the token file, the refresher was spawned, and no task call
  precedes these actions in the trace; the token file holds that token when
  \<^verbatim>\<open>Run\<close> ends. When the first refresh does not return a duration, the task is neither
  created nor started.
\<close>

theorem first_refresh_precedes_task:
  assumes "trace s0 = []"
  shows "((\<exists>b. CallNewTask b \<in> set (trace (snd (Run h r s0)))) \<or>
          CallTaskStart \<in> set (trace (snd (Run h r s0))) \<longrightarrow>
          (\<exists>token claims expiresAt pre cs d post.
             Attest (attestAgent r) = Inr token \<and> ParseRegistered h token = Inr claims \<and>
             ExpiresAt claims = Some expiresAt \<and> time_Now h < expiresAt \<and>
             WriteFile h = None \<and> fst (refreshToken h r s) = Returned (Inr d) \<and>
             trace (snd (Run h r s0)) =
               pre @ [CallAttest, CallWriteFile tokenFilePath token perm_0644, Log cs,
                      SpawnRefresher d] @ post \<and>
             (\<forall>b. CallNewTask b \<notin> set pre) \<and> CallTaskStart \<notin> set pre \<and>
             files (snd (Run h r s0)) tokenFilePath = Some token)) \<and>
         ((\<forall>d. fst (refreshToken h r s) \<noteq> Returned (Inr d)) \<longrightarrow>
          (\<forall>b. CallNewTask b \<notin> set (trace (snd (Run h r s0)))) \<and>
          CallTaskStart \<notin> set (trace (snd (Run h r s0))))"
proof (intro conjI impI)
  assume reach: "(\<exists>b. CallNewTask b \<in> set (trace (snd (Run h r s0)))) \<or>
                 CallTaskStart \<in> set (trace (snd (Run h r s0)))"
  from Run_reaches_task [OF assms reach] obtain s1 s2 where
    m: "measureContainerClaims h r s0 = (None, s1)" and
    f: "fetchAndWriteToken h r s1 = (Returned None, s2)" by blast
  from measureContainerClaims_any [OF m] assms obtain ms where
    ms: "trace s1 = map CallMeasureEvent ms" by auto
  from fetchAndWriteToken_ok [OF f] obtain token claims expiresAt cs d where
    ok: "Attest (attestAgent r) = Inr token" "ParseRegistered h token = Inr claims"
        "ExpiresAt claims = Some expiresAt" "time_Now h < expiresAt" "WriteFile h = None"
        "fst (refreshToken h r s1) = Returned (Inr d)"
    and tr: "trace s2 = trace s1 @ [CallMkdirAll hostTokenPath perm_0744,
                            Log ''refreshing attestation verifier OIDC token'', CallAttest,
                            CallWriteFile tokenFilePath token perm_0644, Log cs,
                            SpawnRefresher d]"
    and fi: "files s2 = (files s1)(tokenFilePath \<mapsto> token)"
    by blast
  from Run_token_ok [OF m f] obtain tail where
    tail: "trace (snd (Run h r s0)) =
         trace s2 @ Log (if LogRedirect (launchSpec r)
                         then ''container stdout/stderr will be redirected''
                         else ''container stdout/stderr will not be redirected'') #
                    CallNewTask (LogRedirect (launchSpec r)) # tail"
      (is "_ = _ @ ?l # ?n # tail")
    and fr: "files (snd (Run h r s0)) = files s2"
    by blast
  let ?pre = "map CallMeasureEvent ms @ [CallMkdirAll hostTokenPath perm_0744,
                Log ''refreshing attestation verifier OIDC token'']"
  let ?post = "?l # ?n # tail"
  from tail tr ms have 1: "trace (snd (Run h r s0)) =
      ?pre @ [CallAttest, CallWriteFile tokenFilePath token perm_0644, Log cs,
              SpawnRefresher d] @ ?post" by simp
  have 2: "(\<forall>b. CallNewTask b \<notin> set ?pre) \<and> CallTaskStart \<notin> set ?pre" by auto
  from fr fi have 3: "files (snd (Run h r s0)) tokenFilePath = Some token" by simp
  from ok(6) have 4: "fst (refreshToken h r s) = Returned (Inr d)"
    by (simp add: refreshToken_outcome_state [of h r s s1])
  from ok(1-5) 1 2 3 4
  show "\<exists>token claims expiresAt pre cs d post.
             Attest (attestAgent r) = Inr token \<and> ParseRegistered h token = Inr claims \<and>
             ExpiresAt claims = Some expiresAt \<and> time_Now h < expiresAt \<and>
             WriteFile h = None \<and> fst (refreshToken h r s) = Returned (Inr d) \<and>
             trace (snd (Run h r s0)) =
               pre @ [CallAttest, CallWriteFile tokenFilePath token perm_0644, Log cs,
                      SpawnRefresher d] @ post \<and>
             (\<forall>b. CallNewTask b \<notin> set pre) \<and> CallTaskStart \<notin> set pre \<and>
             files (snd (Run h r s0)) tokenFilePath = Some token"
    by blast
next
  assume fail: "\<forall>d. fst (refreshToken h r s) \<noteq> Returned (Inr d)"
  show "\<forall>b. CallNewTask b \<notin> set (trace (snd (Run h r s0)))"
  proof (intro allI notI)
    fix b assume "CallNewTask b \<in> set (trace (snd (Run h r s0)))"
    then have "(\<exists>b. CallNewTask b \<in> set (trace (snd (Run h r s0)))) \<or>
               CallTaskStart \<in> set (trace (snd (Run h r s0)))" by blast
    from Run_reaches_task [OF assms this] fetchAndWriteToken_failed [OF fail]
    show False by (metis fst_conv)
  qed
next
  assume fail: "\<forall>d. fst (refreshToken h r s) \<noteq> Returned (Inr d)"
  show "CallTaskStart \<notin> set (trace (snd (Run h r s0)))"
  proof
    assume "CallTaskStart \<in> set (trace (snd (Run h r s0)))"
    then have "(\<exists>b. CallNewTask b \<in> set (trace (snd (Run h r s0)))) \<or>
               CallTaskStart \<in> set (trace (snd (Run h r s0)))" by blast
    from Run_reaches_task [OF assms this] fetchAndWriteToken_failed [OF fail]
    show False by (metis fst_conv)
  qed
qed

theorem first_refresh_precedes_task_witness:
  "(\<exists>pre cs d post.
      trace (snd (Run demo_host demo_runner demo_state)) =
        pre @ [CallAttest, CallWriteFile tokenFilePath ''token'' perm_0644, Log cs,
               SpawnRefresher d] @ post \<and>
      (\<forall>b. CallNewTask b \<notin> set pre) \<and> CallTaskStart \<notin> set pre) \<and>
   files (snd (Run demo_host demo_runner demo_state)) tokenFilePath = Some ''token'' \<and>
   CallTaskStart \<in> set (trace (snd (Run demo_host demo_runner demo_state))) \<and>
   CallTaskStart \<notin> set (trace (snd (Run (demo_host\<lparr>WriteFile := Some (ErrNew ''disk full'')\<rparr>)
                                       demo_runner demo_state)))"
proof -
  let ?h = "demo_host\<lparr>WriteFile := Some (ErrNew ''disk full'')\<rparr>"
  have 1: "trace demo_state = []" by (simp add: demo_state_def)
  have 2: "CallTaskStart \<in> set (trace (snd (Run demo_host demo_runner demo_state)))"
    by code_simp
  have 3: "Attest (attestAgent demo_runner) = Inr ''token''"
    by (simp add: demo_runner_def demo_agent_def)
  have 4: "fst (refreshToken ?h demo_runner demo_state) =
             Returned (Inl (Errorf ''failed to write token to container mount source point: %v''
                              (ErrNew ''disk full'')))"
    by code_simp
  then have 5: "\<forall>d. fst (refreshToken ?h demo_runner demo_state) \<noteq> Returned (Inr d)" by simp
  from first_refresh_precedes_task [OF 1, of demo_host demo_runner demo_state] 2 3
  have A: "(\<exists>pre cs d post.
      trace (snd (Run demo_host demo_runner demo_state)) =
        pre @ [CallAttest, CallWriteFile tokenFilePath ''token'' perm_0644, Log cs,
               SpawnRefresher d] @ post \<and>
      (\<forall>b. CallNewTask b \<notin> set pre) \<and> CallTaskStart \<notin> set pre) \<and>
   files (snd (Run demo_host demo_runner demo_state)) tokenFilePath = Some ''token''"
    by auto
  from first_refresh_precedes_task [OF 1, of ?h demo_runner demo_state] 5
  have B: "CallTaskStart \<notin> set (trace (snd (Run ?h demo_runner demo_state)))"
    by blast
  from A 2 B show ?thesis by blast
qed

text \<open>
  Claim C10. An error from \<^verbatim>\<open>refreshToken\<close> does not mean the token file is as before:
  when the expiry check passes and \<^verbatim>\<open>os.WriteFile\<close> succeeds, but the second
  \<^verbatim>\<open>ParseUnverified\<close> (into the claim map) or \<^verbatim>\<open>json.MarshalIndent\<close> fails,
  \<^verbatim>\<open>refreshToken\<close> returns an error after the token has been written to the file.
\<close>

theorem refreshToken_error_after_write:
  assumes "Attest (attestAgent r) = Inr token" and "ParseRegistered h token = Inr claims"
    and "ExpiresAt claims = Some expiresAt" and "time_Now h < expiresAt"
    and "WriteFile h = None"
    and "(\<exists>err. ParseMap h token = Inl err) \<or>
         (\<exists>mapClaims err. ParseMap h token = Inr mapClaims \<and> MarshalIndent h mapClaims = Inl err)"
  shows "(\<exists>err. fst (refreshToken h r s) = Returned (Inl err)) \<and>
     trace (snd (refreshToken h r s)) =
       trace s @ [Log ''refreshing attestation verifier OIDC token'', CallAttest,
                  CallWriteFile tokenFilePath token perm_0644] \<and>
     files (snd (refreshToken h r s)) = (files s)(tokenFilePath \<mapsto> token)"
  using assms
  by (auto simp: refreshToken_def act_def Let_def split: sum.splits option.splits)

theorem refreshToken_error_after_write_witness:
  "fst (refreshToken (demo_host\<lparr>ParseMap := \<lambda>t. Inl (ErrNew ''malformed'')\<rparr>) demo_runner demo_state) =
     Returned (Inl (Errorf ''failed to parse token: %w'' (ErrNew ''malformed''))) \<and>
   files demo_state tokenFilePath = None \<and>
   files (snd (refreshToken (demo_host\<lparr>ParseMap := \<lambda>t. Inl (ErrNew ''malformed'')\<rparr>)
                 demo_runner demo_state)) tokenFilePath = Some ''token''"
proof -
  let ?h = "demo_host\<lparr>ParseMap := \<lambda>t. Inl (ErrNew ''malformed'')\<rparr>"
  have 1: "Attest (attestAgent demo_runner) = Inr ''token''"
    by (simp add: demo_runner_def demo_agent_def)
  have 2: "ParseRegistered ?h ''token'' = Inr \<lparr>ExpiresAt = Some 1000\<rparr>"
    by (simp add: demo_host_def)
  have 3: "ExpiresAt \<lparr>ExpiresAt = Some 1000\<rparr> = Some 1000" by simp
  have 4: "time_Now ?h < 1000" by (simp add: demo_host_def)
  have 5: "WriteFile ?h = None" by (simp add: demo_host_def)
  have 6: "(\<exists>err. ParseMap ?h ''token'' = Inl err) \<or>
         (\<exists>mapClaims err. ParseMap ?h ''token'' = Inr mapClaims \<and> MarshalIndent ?h mapClaims = Inl err)"
    by simp
  have 7: "fst (refreshToken ?h demo_runner demo_state) =
     Returned (Inl (Errorf ''failed to parse token: %w'' (ErrNew ''malformed'')))"
    by code_simp
  have 8: "files demo_state tokenFilePath = None" by (simp add: demo_state_def)
  from refreshToken_error_after_write [OF 1 2 3 4 5 6, of demo_state] 7 8 show ?thesis
    by simp
qed

lemma Run_task_phase:
  assumes "measureContainerClaims h r s0 = (None, s1)"
    and "fetchAndWriteToken h r s1 = (Returned None, s2)"
  shows "fst (Run h r s0) =
     (case NewTask (container r) of
        Inl err \<Rightarrow> Returned (Some (RetryableError err))
      | Inr task \<Rightarrow>
         (case Start task of
            Some err \<Rightarrow> Returned (Some (RetryableError err))
          | None \<Rightarrow>
             (case fst (Wait task) of
                None \<Rightarrow> Blocked
              | Some status \<Rightarrow>
                 (case exit_err status of
                    Some err \<Rightarrow> Returned (Some err)
                  | None \<Rightarrow>
                      if code status \<noteq> 0 then Returned (Some (WorkloadError (code status)))
                      else Returned None))))"
    and "\<And>task. NewTask (container r) = Inr task \<Longrightarrow>
           CallTaskStart \<in> set (trace (snd (Run h r s0))) \<and>
           (\<forall>err. snd (Wait task) = Some err \<longrightarrow> LogErr [] err \<in> set (trace (snd (Run h r s0))))"
  using assms
  by (auto simp: Run_def act_def Let_def split: sum.splits option.splits prod.splits)

text \<open>
  Claim C6, refuted as stated: \<^verbatim>\<open>task.Wait\<close> fails (error and nil channel), and \<^verbatim>\<open>Run\<close>
  does not return that error wrapped as a RetryableError: it prints it to the logger,
  starts the task and then waits on the channel for ever. With a failing
  \<^verbatim>\<open>task.Start\<close> as well, the error returned is the one of \<^verbatim>\<open>Start\<close>.
\<close>

theorem Run_wait_error_not_returned:
  "fst (Run demo_host
          (demo_runner\<lparr>container := demo_container\<lparr>NewTask :=
             Inr \<lparr>Wait = (None, Some (ErrNew ''wait failed'')), Start = None\<rparr>\<rparr>\<rparr>)
          demo_state) = Blocked \<and>
   CallTaskStart \<in> set (trace (snd (Run demo_host
          (demo_runner\<lparr>container := demo_container\<lparr>NewTask :=
             Inr \<lparr>Wait = (None, Some (ErrNew ''wait failed'')), Start = None\<rparr>\<rparr>\<rparr>)
          demo_state))) \<and>
   fst (Run demo_host
          (demo_runner\<lparr>container := demo_container\<lparr>NewTask :=
             Inr \<lparr>Wait = (None, Some (ErrNew ''wait failed'')),
                  Start = Some (ErrNew ''start failed'')\<rparr>\<rparr>\<rparr>)
          demo_state) = Returned (Some (RetryableError (ErrNew ''start failed'')))"
  by code_simp

text \<open>
  Claim C6, amended. In a run that gets to create the task: an error of task creation
  and an error of task start are returned wrapped as RetryableError; an error of
  \<^verbatim>\<open>task.Wait\<close> is printed to the logger and the task is started all the same; once
  the task has started and its exit status arrives, an error in the status is returned
  as it is, a nonzero exit code is returned as WorkloadError with that code, and a zero
  exit code makes \<^verbatim>\<open>Run\<close> return nil.
\<close>

theorem Run_task_errors:
  assumes "trace s0 = []"
    and "CallNewTask (LogRedirect (launchSpec r)) \<in> set (trace (snd (Run h r s0)))"
  shows "(\<forall>err. NewTask (container r) = Inl err \<longrightarrow>
            fst (Run h r s0) = Returned (Some (RetryableError err))) \<and>
     (\<forall>task. NewTask (container r) = Inr task \<longrightarrow>
        CallTaskStart \<in> set (trace (snd (Run h r s0))) \<and>
        (\<forall>err. snd (Wait task) = Some err \<longrightarrow> LogErr [] err \<in> set (trace (snd (Run h r s0)))) \<and>
        (\<forall>err. Start task = Some err \<longrightarrow>
           fst (Run h r s0) = Returned (Some (RetryableError err))) \<and>
        (\<forall>status. Start task = None \<and> fst (Wait task) = Some status \<longrightarrow>
           (\<forall>err. exit_err status = Some err \<longrightarrow> fst (Run h r s0) = Returned (Some err)) \<and>
           (exit_err status = None \<and> code status \<noteq> 0 \<longrightarrow>
              fst (Run h r s0) = Returned (Some (WorkloadError (code status)))) \<and>
           (exit_err status = None \<and> code status = 0 \<longrightarrow>
              fst (Run h r s0) = Returned None)))"
proof -
  from assms(2) have "(\<exists>b. CallNewTask b \<in> set (trace (snd (Run h r s0)))) \<or>
               CallTaskStart \<in> set (trace (snd (Run h r s0)))" by blast
  from Run_reaches_task [OF assms(1) this] obtain s1 s2 where
    m: "measureContainerClaims h r s0 = (None, s1)" and
    f: "fetchAndWriteToken h r s1 = (Returned None, s2)" by blast
  note res = Run_task_phase(1) [OF m f] and tr = Run_task_phase(2) [OF m f]
  show ?thesis
  proof (intro conjI allI impI)
    fix err assume "NewTask (container r) = Inl err"
    with res show "fst (Run h r s0) = Returned (Some (RetryableError err))" by simp
  next
    fix task assume "NewTask (container r) = Inr task"
    from tr [OF this] show "CallTaskStart \<in> set (trace (snd (Run h r s0)))" by blast
  next
    fix task err assume "NewTask (container r) = Inr task" "snd (Wait task) = Some err"
    with tr show "LogErr [] err \<in> set (trace (snd (Run h r s0)))" by blast
  next
    fix task err assume "NewTask (container r) = Inr task" "Start task = Some err"
    with res show "fst (Run h r s0) = Returned (Some (RetryableError err))" by simp
  next
    fix task status err
    assume "NewTask (container r) = Inr task" "Start task = None \<and> fst (Wait task) = Some status"
      "exit_err status = Some err"
    with res show "fst (Run h r s0) = Returned (Some err)" by simp
  next
    fix task status
    assume "NewTask (container r) = Inr task" "Start task = None \<and> fst (Wait task) = Some status"
      "exit_err status = None \<and> code status \<noteq> 0"
    with res show "fst (Run h r s0) = Returned (Some (WorkloadError (code status)))" by simp
  next
    fix task status
    assume "NewTask (container r) = Inr task" "Start task = None \<and> fst (Wait task) = Some status"
      "exit_err status = None \<and> code status = 0"
    with res show "fst (Run h r s0) = Returned None" by simp
  qed
qed

theorem Run_task_errors_witness:
  "fst (Run demo_host demo_runner demo_state) = Returned None \<and>
   fst (Run demo_host
          (demo_runner\<lparr>container := demo_container\<lparr>NewTask :=
             Inr \<lparr>Wait = (Some \<lparr>code = 42, exit_err = None\<rparr>, None), Start = None\<rparr>\<rparr>\<rparr>)
          demo_state) = Returned (Some (WorkloadError 42)) \<and>
   fst (Run demo_host
          (demo_runner\<lparr>container := demo_container\<lparr>NewTask := Inl (ErrNew ''no task'')\<rparr>\<rparr>)
          demo_state) = Returned (Some (RetryableError (ErrNew ''no task''))) \<and>
   fst (Run demo_host
          (demo_runner\<lparr>container := demo_container\<lparr>NewTask :=
             Inr \<lparr>Wait = (None, Some (ErrNew ''wait failed'')),
                  Start = Some (ErrNew ''start failed'')\<rparr>\<rparr>\<rparr>)
          demo_state) = Returned (Some (RetryableError (ErrNew ''start failed''))) \<and>
   LogErr [] (ErrNew ''wait failed'') \<in> set (trace (snd (Run demo_host
          (demo_runner\<lparr>container := demo_container\<lparr>NewTask :=
             Inr \<lparr>Wait = (None, Some (ErrNew ''wait failed'')),
                  Start = Some (ErrNew ''start failed'')\<rparr>\<rparr>\<rparr>)
          demo_state))) \<and>
   fst (Run demo_host
          (demo_runner\<lparr>container := demo_container\<lparr>NewTask :=
             Inr \<lparr>Wait = (Some \<lparr>code = 0, exit_err = Some (ErrNew ''no status'')\<rparr>, None),
                  Start = None\<rparr>\<rparr>\<rparr>)
          demo_state) = Returned (Some (ErrNew ''no status''))"
proof -
  let ?te = "\<lparr>Wait = (Some \<lparr>code = 0, exit_err = Some (ErrNew ''no status'')\<rparr>, None), Start = None\<rparr>"
  let ?re = "demo_runner\<lparr>container := demo_container\<lparr>NewTask := Inr ?te\<rparr>\<rparr>"
  let ?t42 = "\<lparr>Wait = (Some \<lparr>code = 42, exit_err = None\<rparr>, None), Start = None\<rparr>"
  let ?tw = "\<lparr>Wait = (None, Some (ErrNew ''wait failed'')), Start = Some (ErrNew ''start failed'')\<rparr>"
  let ?r42 = "demo_runner\<lparr>container := demo_container\<lparr>NewTask := Inr ?t42\<rparr>\<rparr>"
  let ?rn = "demo_runner\<lparr>container := demo_container\<lparr>NewTask := Inl (ErrNew ''no task'')\<rparr>\<rparr>"
  let ?rw = "demo_runner\<lparr>container := demo_container\<lparr>NewTask := Inr ?tw\<rparr>\<rparr>"
  have 0: "trace demo_state = []" by (simp add: demo_state_def)
  have a: "CallNewTask (LogRedirect (launchSpec demo_runner)) \<in>
             set (trace (snd (Run demo_host demo_runner demo_state)))" by code_simp
  have b: "CallNewTask (LogRedirect (launchSpec ?r42)) \<in>
             set (trace (snd (Run demo_host ?r42 demo_state)))" by code_simp
  have c: "CallNewTask (LogRedirect (launchSpec ?rn)) \<in>
             set (trace (snd (Run demo_host ?rn demo_state)))" by code_simp
  have d: "CallNewTask (LogRedirect (launchSpec ?rw)) \<in>
             set (trace (snd (Run demo_host ?rw demo_state)))" by code_simp
  have A: "fst (Run demo_host demo_runner demo_state) = Returned None"
    using Run_task_errors [OF 0 a]
    by (simp add: demo_runner_def demo_container_def demo_task_def)
  have B: "fst (Run demo_host ?r42 demo_state) = Returned (Some (WorkloadError 42))"
    using Run_task_errors [OF 0 b] by simp
  have C: "fst (Run demo_host ?rn demo_state) = Returned (Some (RetryableError (ErrNew ''no task'')))"
    using Run_task_errors [OF 0 c] by simp
  have D: "fst (Run demo_host ?rw demo_state) = Returned (Some (RetryableError (ErrNew ''start failed''))) \<and>
      LogErr [] (ErrNew ''wait failed'') \<in> set (trace (snd (Run demo_host ?rw demo_state)))"
    using Run_task_errors [OF 0 d] by simp
  have e: "CallNewTask (LogRedirect (launchSpec ?re)) \<in>
             set (trace (snd (Run demo_host ?re demo_state)))" by code_simp
  have E: "fst (Run demo_host ?re demo_state) = Returned (Some (ErrNew ''no status''))"
    using Run_task_errors [OF 0 e] by simp
  from A B C D E show ?thesis by blast
qed

section \<open>Construction\<close>


lemma NewRunner_container_short_args:
  "NewContainer c = (Some cont, None) \<Longrightarrow> Container_Spec cont = Inr containerSpec \<Longrightarrow>
   length (Args containerSpec) \<le> length (Cmd ls) \<Longrightarrow>
     NewRunner_container c ls envs mounts hostname t4 =
       (Returned (Inl (ErrNew ''length of Args is shorter or equal to the length of the given Cmd, maybe the Entrypoint is set to empty in the image?'')),
        t4 @ [CallNewContainer (Cmd ls) envs mounts hostname])"
  by (simp add: NewRunner_container_def)




lemma initImage_trace:
  "\<forall>a b m n. CallNewContainer a b m n \<notin> set (snd (initImage c))"
  by (simp add: initImage_def split: sum.splits)

lemma NewRunner_head:
  "(\<forall>a b m n. CallNewContainer a b m n \<notin> set (snd (NewRunner h c ls))) \<or>
   (\<exists>envs hostname t4. formatEnvVars h (Envs ls) = Inr envs \<and> Hostname c = Inr hostname \<and>
      (\<forall>a b m n. CallNewContainer a b m n \<notin> set t4) \<and>
      NewRunner h c ls = NewRunner_container c ls envs (appendTokenMounts []) hostname t4)"
proof -
  obtain ir t0 where i: "initImage c = (ir, t0)" by (cases "initImage c")
  from initImage_trace [of c] i have t0: "\<forall>a b m n. CallNewContainer a b m n \<notin> set t0" by simp
  show ?thesis
  proof (cases ir)
    case (Inl e)
    with i have "snd (NewRunner h c ls) = t0" by (simp add: NewRunner_def)
    with t0 show ?thesis by simp
  next
    case (Inr img)
    note i = i [unfolded Inr]
    show ?thesis
    proof (cases "formatEnvVars h (Envs ls)")
      case (Inl e)
      with i have "snd (NewRunner h c ls) = t0" by (simp add: NewRunner_def)
      with t0 show ?thesis by simp
    next
      case (Inr envs)
      note en = this
      let ?t1 = "t0 @ [CallLoadContainer] @
                   (case LoadContainer c of None \<Rightarrow> [CallContainerDelete] | Some err \<Rightarrow> []) @
                   [Log ''Operator Input Image Ref   : %v'', Log ''Image Digest               : %v'',
                    Log ''Operator Override Env Vars : %v'', Log ''Operator Override Cmd      : %v'']"
      define imageLabels where
        "imageLabels = (case getImageLabels img of Inl err \<Rightarrow> Map.empty | Inr labels \<Rightarrow> labels)"
      define t2 where
        "t2 = (case getImageLabels img of
                 Inl err \<Rightarrow> ?t1 @ [LogErr ''Failed to get image OCI labels %v'' err]
               | Inr labels \<Rightarrow> ?t1)"
      note l = imageLabels_def t2_def
      from t0 have t2: "\<forall>a b m n. CallNewContainer a b m n \<notin> set t2"
        by (simp add: t2_def split: option.splits sum.splits)
      let ?t3 = "t2 @ [Log ''Image Labels               : %v'']"
      show ?thesis
      proof (cases "GetLaunchPolicy c imageLabels")
        case (Inl e)
        with i en have "snd (NewRunner h c ls) = ?t3"
          unfolding l by (cases "getImageLabels img") (simp_all add: NewRunner_def Let_def)
        with t2 show ?thesis by simp
      next
        case (Inr launchPolicy)
        note lp = this
        show ?thesis
        proof (cases "Verify c launchPolicy ls")
          case (Some e)
          with i en lp have "snd (NewRunner h c ls) = ?t3"
            unfolding l by (cases "getImageLabels img") (simp_all add: NewRunner_def Let_def)
          with t2 show ?thesis by simp
        next
          case None
          note ve = this
          let ?t4 = "?t3 @ (case Config img of
                              Inl err \<Rightarrow> [LogErr [] err]
                            | Inr imageConfig \<Rightarrow>
                                [Log ''Image ID                   : %v'',
                                 Log ''Image Annotations          : %v''])"
          from t2 have t4: "\<forall>a b m n. CallNewContainer a b m n \<notin> set ?t4"
            by (simp split: sum.splits)
          show ?thesis
          proof (cases "Hostname c")
            case (Inl e)
            with i en lp ve have "snd (NewRunner h c ls) = ?t4"
              unfolding l by (cases "getImageLabels img") (simp_all add: NewRunner_def Let_def)
            with t4 show ?thesis by simp
          next
            case (Inr hostname)
            with i en lp ve have
              "NewRunner h c ls = NewRunner_container c ls envs (appendTokenMounts []) hostname ?t4"
              unfolding l by (cases "getImageLabels img") (simp_all add: NewRunner_def Let_def)
            with en Inr t4 show ?thesis by blast
          qed
        qed
      qed
    qed
  qed
qed


text \<open>
  Claim C5, refuted as stated: the image has an empty entry point, the created
  container's arguments are no more than the command override, and \<^verbatim>\<open>NewRunner\<close>
  returns the (plain, not retryable) error right after creating the container. No
  \<^verbatim>\<open>container.Delete\<close> call is made: the created container stays.
\<close>

theorem NewRunner_missing_entrypoint_keeps_container:
  "(case fst (NewRunner demo_host no_entrypoint_client demo_spec) of
      Returned (Inl err) \<Rightarrow> Some err | other \<Rightarrow> None) =
     Some (ErrNew ''length of Args is shorter or equal to the length of the given Cmd, maybe the Entrypoint is set to empty in the image?'') \<and>
   snd (NewRunner demo_host no_entrypoint_client demo_spec) =
     [CallPull False, CallLoadContainer,
      Log ''Operator Input Image Ref   : %v'', Log ''Image Digest               : %v'',
      Log ''Operator Override Env Vars : %v'', Log ''Operator Override Cmd      : %v'',
      Log ''Image Labels               : %v'', Log ''Image ID                   : %v'',
      Log ''Image Annotations          : %v'',
      CallNewContainer [''./run''] [''FOO=bar'']
        [\<lparr>Destination = ''/run/container_launcher/'', Type = ''bind'',
          Source = ''/tmp/container_launcher/'', Options = [''rbind'', ''ro'']\<rparr>] ''host''] \<and>
   CallContainerDelete \<notin> set (snd (NewRunner demo_host no_entrypoint_client demo_spec))"
  by code_simp

text \<open>
  Claim C5, amended. When construction has created the container and the generated
  spec's argument count is not greater than the length of the \<^verbatim>\<open>Cmd\<close> override,
  \<^verbatim>\<open>NewRunner\<close> fails with a plain error, not a RetryableError, and creating the
  container is its last action: it does not delete the created container.
\<close>

theorem NewRunner_missing_entrypoint:
  assumes "CallNewContainer cmd envs mounts hostname \<in> set (snd (NewRunner h c ls))"
    and "NewContainer c = (Some cont, None)"
    and "Container_Spec cont = Inr containerSpec"
    and "length (Args containerSpec) \<le> length (Cmd ls)"
  shows "fst (NewRunner h c ls) =
       Returned (Inl (ErrNew ''length of Args is shorter or equal to the length of the given Cmd, maybe the Entrypoint is set to empty in the image?'')) \<and>
     (\<forall>err. fst (NewRunner h c ls) \<noteq> Returned (Inl (RetryableError err))) \<and>
     (\<exists>pre. snd (NewRunner h c ls) = pre @ [CallNewContainer cmd envs mounts hostname] \<and>
            (\<forall>a b m n. CallNewContainer a b m n \<notin> set pre))"
proof -
  from NewRunner_head [of h c ls] assms(1) obtain envs' hostname' t4 where
    e: "\<forall>a b m n. CallNewContainer a b m n \<notin> set t4"
       "NewRunner h c ls = NewRunner_container c ls envs' (appendTokenMounts []) hostname' t4"
    by blast
  from NewRunner_container_short_args [OF assms(2-4)] e(2)
  have eq: "NewRunner h c ls =
       (Returned (Inl (ErrNew ''length of Args is shorter or equal to the length of the given Cmd, maybe the Entrypoint is set to empty in the image?'')),
        t4 @ [CallNewContainer (Cmd ls) envs' (appendTokenMounts []) hostname'])"
    by simp
  with assms(1) e(1) have "CallNewContainer cmd envs mounts hostname =
      CallNewContainer (Cmd ls) envs' (appendTokenMounts []) hostname'"
    by auto
  with eq e(1) show ?thesis by auto
qed

theorem NewRunner_missing_entrypoint_witness:
  "(\<exists>pre. snd (NewRunner demo_host no_entrypoint_client demo_spec) =
      pre @ [CallNewContainer [''./run''] [''FOO=bar''] (appendTokenMounts []) ''host'']) \<and>
   (\<forall>err. fst (NewRunner demo_host no_entrypoint_client demo_spec) \<noteq>
            Returned (Inl (RetryableError err)))"
proof -
  have 1: "CallNewContainer [''./run''] [''FOO=bar''] (appendTokenMounts []) ''host'' \<in>
             set (snd (NewRunner demo_host no_entrypoint_client demo_spec))"
    by code_simp
  have 2: "NewContainer no_entrypoint_client =
     (Some (demo_container\<lparr>Container_Spec := Inr \<lparr>Args = [''./run''], Env = [''PATH=/bin'']\<rparr>\<rparr>), None)"
    by (simp add: no_entrypoint_client_def)
  have 3: "Container_Spec (demo_container\<lparr>Container_Spec := Inr \<lparr>Args = [''./run''], Env = [''PATH=/bin'']\<rparr>\<rparr>)
             = Inr \<lparr>Args = [''./run''], Env = [''PATH=/bin'']\<rparr>"
    by simp
  have 4: "length (Args \<lparr>Args = [''./run''], Env = [''PATH=/bin'']\<rparr>) \<le> length (Cmd demo_spec)"
    by (simp add: demo_spec_def)
  from NewRunner_missing_entrypoint [OF 1 2 3 4] show ?thesis by blast
qed




section \<open>Quote verification\<close>

lemma verifyAttestationData_success:
  assumes "verifyAttestationData cr q extraData hash = Returned None"
  shows "\<exists>ad qi. DecodeAttestationData cr (GetQuote q) = Inr ad \<and> AD_Type ad = TagAttestQuote \<and>
     AttestedQuoteInfo ad = Some qi \<and> ExtraData ad = extraData \<and>
     SamePCRSelection cr (GetPcrs q) (QI_PCRSelection qi) \<and>
     QI_PCRDigest qi = PCRDigest cr (GetPcrs q) hash"
  using assms
  by (auto simp: verifyAttestationData_def validatePCRDigest_def ConstantTimeCompare_def
           split: sum.splits option.splits if_splits)

text \<open>
  What a successful \<^verbatim>\<open>VerifyQuote\<close> implies: the signature scheme matches the key type,
  the signature verifies over the hash of the quote bytes, the attestation data decodes
  with the quote tag and quote info, the extra data is equal, the PCR selection is the
  same and the PCR digest under the signature's hash algorithm is equal.
\<close>

lemma VerifyQuote_success:
  assumes "VerifyQuote cr q trustedPub extraData = Returned None"
  shows "\<exists>sig hash ad qi.
     DecodeSignature cr (GetRawSig q) = Inr sig \<and>
     ((\<exists>pub ecc. trustedPub = ECDSA_PublicKey pub \<and> Alg sig = AlgECDSA \<and> ECC sig = Some ecc \<and>
         Alg_Hash cr (ECC_HashAlg ecc) = Inr hash \<and>
         ecdsa_Verify cr pub (hash_Sum cr hash (GetQuote q)) (R ecc) (S ecc)) \<or>
      (\<exists>pub rsa. trustedPub = RSA_PublicKey pub \<and> Alg sig = AlgRSASSA \<and> RSA sig = Some rsa \<and>
         Alg_Hash cr (RSA_HashAlg rsa) = Inr hash \<and>
         rsa_VerifyPKCS1v15 cr pub hash (hash_Sum cr hash (GetQuote q)) (RSA_Signature rsa) = None)) \<and>
     DecodeAttestationData cr (GetQuote q) = Inr ad \<and> AD_Type ad = TagAttestQuote \<and>
     AttestedQuoteInfo ad = Some qi \<and> ExtraData ad = extraData \<and>
     SamePCRSelection cr (GetPcrs q) (QI_PCRSelection qi) \<and>
     QI_PCRDigest qi = PCRDigest cr (GetPcrs q) hash"
proof -
  from assms obtain sig where sig: "DecodeSignature cr (GetRawSig q) = Inr sig"
    by (cases "DecodeSignature cr (GetRawSig q)") (auto simp: VerifyQuote_def)
  show ?thesis
  proof (cases trustedPub)
    case (ECDSA_PublicKey pub)
    with assms sig obtain ecc hash where
      e: "ECC sig = Some ecc" "Alg_Hash cr (ECC_HashAlg ecc) = Inr hash"
         "verifyECDSAQuoteSignature cr pub hash (GetQuote q) sig = Returned None"
         "verifyAttestationData cr q extraData hash = Returned None"
      by (auto simp: VerifyQuote_def split: option.splits sum.splits outcome.splits)
    from e(1,3) have "Alg sig = AlgECDSA"
      "ecdsa_Verify cr pub (hash_Sum cr hash (GetQuote q)) (R ecc) (S ecc)"
      by (auto simp: verifyECDSAQuoteSignature_def split: if_splits)
    with verifyAttestationData_success [OF e(4)] sig ECDSA_PublicKey e(1,2) show ?thesis
      by blast
  next
    case (RSA_PublicKey pub)
    with assms sig obtain rsa hash where
      e: "RSA sig = Some rsa" "Alg_Hash cr (RSA_HashAlg rsa) = Inr hash"
         "verifyRSASSAQuoteSignature cr pub hash (GetQuote q) sig = Returned None"
         "verifyAttestationData cr q extraData hash = Returned None"
      by (auto simp: VerifyQuote_def split: option.splits sum.splits outcome.splits)
    from e(1,3) have "Alg sig = AlgRSASSA"
      "rsa_VerifyPKCS1v15 cr pub hash (hash_Sum cr hash (GetQuote q)) (RSA_Signature rsa) = None"
      by (auto simp: verifyRSASSAQuoteSignature_def split: if_splits option.splits)
    with verifyAttestationData_success [OF e(4)] sig RSA_PublicKey e(1,2) show ?thesis
      by blast
  next
    case (Other_PublicKey ty)
    with assms sig show ?thesis by (simp add: VerifyQuote_def)
  qed
qed

text \<open>
  A signature of the other scheme does not make \<^verbatim>\<open>VerifyQuote\<close> return an error: the
  pointer of the key's scheme is nil, and reading its \<^verbatim>\<open>HashAlg\<close> panics before
  \<^verbatim>\<open>sig.Alg\<close> is compared.
\<close>

lemma VerifyQuote_scheme_mismatch:
  "DecodeSignature cr (GetRawSig q) = Inr sig \<Longrightarrow> ECC sig = None \<Longrightarrow>
     VerifyQuote cr q (ECDSA_PublicKey pub) extraData = Panicked"
  "DecodeSignature cr (GetRawSig q) = Inr sig \<Longrightarrow> RSA sig = None \<Longrightarrow>
     VerifyQuote cr q (RSA_PublicKey pub) extraData = Panicked"
  by (simp_all add: VerifyQuote_def)

text \<open>
  Claim C4, at the failing input: an RSASSA signature checked against an ECDSA key.
  \<^verbatim>\<open>VerifyQuote\<close> panics instead of returning an error; the same quote verifies against
  an RSA key.
\<close>

theorem VerifyQuote_rsassa_signature_ecdsa_key:
  "VerifyQuote demo_crypto demo_quote (ECDSA_PublicKey ''key'') ''nonce'' = Panicked \<and>
   VerifyQuote demo_crypto demo_quote (RSA_PublicKey ''key'') ''nonce'' = Returned None"
  by code_simp

section \<open>The refresh delay\<close>

lemma round_half_even_error: "\<bar>of_int (round_half_even y) - y\<bar> \<le> 1 / 2"
proof -
  have "of_int \<lfloor>y\<rfloor> \<le> y" "y < of_int \<lfloor>y\<rfloor> + 1" by linarith+
  then show ?thesis
    by (auto simp: round_half_even_def Let_def)
qed

lemma round_half_even_nonneg: "0 \<le> y \<Longrightarrow> 0 \<le> round_half_even y"
  by (auto simp: round_half_even_def Let_def)

lemma ilog2_le:
  assumes "0 < x"
  shows "power_int 2 (ilog2 x) \<le> x"
proof -
  obtain p q where pq: "quotient_of x = (p, q)" by (cases "quotient_of x")
  then have q: "0 < q" and x: "x = of_int p / of_int q"
    by (simp_all add: quotient_of_denom_pos quotient_of_div)
  from assms x q have p: "0 < p" by (simp add: zero_less_divide_iff)
  from bitlen_bounds [OF p] have pl: "(2::int) ^ nat (bitlen p - 1) \<le> p" by simp
  from bitlen_bounds [OF q] have qu: "q < 2 ^ nat (bitlen q)" by simp
  have bp: "1 \<le> bitlen p" using p by (simp add: bitlen_alt_def)
  have bq: "0 \<le> bitlen q" by (rule bitlen_nonneg)
  let ?d = "bitlen p - bitlen q"
  show ?thesis
  proof (cases "power_int 2 ?d \<le> x")
    case True
    then show ?thesis by (simp add: ilog2_def pq)
  next
    case False
    then have il: "ilog2 x = ?d - 1" by (simp add: ilog2_def pq)
    define a where "a = nat (bitlen p - 1)"
    define b where "b = nat (bitlen q)"
    have "?d - 1 = int a - int b" using bp bq by (simp add: a_def b_def)
    then have "power_int (2::rat) (?d - 1) = power_int 2 (int a - int b)" by simp
    also have "\<dots> = power_int 2 (int a) / power_int 2 (int b)"
      by (rule power_int_diff) simp
    also have "\<dots> = 2 ^ a / 2 ^ b" by (simp only: power_int_of_nat)
    finally have "power_int (2::rat) (?d - 1) = 2 ^ nat (bitlen p - 1) / 2 ^ nat (bitlen q)"
      by (simp add: a_def b_def)
    also have "\<dots> \<le> of_int p / of_int q"
    proof (rule frac_le)
      from p show "(0::rat) \<le> of_int p" by simp
      from pl have "(of_int (2 ^ nat (bitlen p - 1)) :: rat) \<le> of_int p" by (simp only: of_int_le_iff)
      then show "(2::rat) ^ nat (bitlen p - 1) \<le> of_int p" by simp
      from q show "(0::rat) < of_int q" by simp
      from qu have "(of_int q :: rat) \<le> of_int (2 ^ nat (bitlen q))" by (simp only: of_int_le_iff)
      then show "(of_int q :: rat) \<le> 2 ^ nat (bitlen q)" by simp
    qed
    finally show ?thesis using il x by simp
  qed
qed

lemma ilog2_less:
  assumes "0 < x"
  shows "x < power_int 2 (ilog2 x + 1)"
proof -
  obtain p q where pq: "quotient_of x = (p, q)" by (cases "quotient_of x")
  then have q: "0 < q" and x: "x = of_int p / of_int q"
    by (simp_all add: quotient_of_denom_pos quotient_of_div)
  from assms x q have p: "0 < p" by (simp add: zero_less_divide_iff)
  from bitlen_bounds [OF p] have pu: "p < 2 ^ nat (bitlen p)" by simp
  from bitlen_bounds [OF q] have ql: "(2::int) ^ nat (bitlen q - 1) \<le> q" by simp
  have bp: "0 \<le> bitlen p" by (rule bitlen_nonneg)
  have bq: "1 \<le> bitlen q" using q by (simp add: bitlen_alt_def)
  let ?d = "bitlen p - bitlen q"
  show ?thesis
  proof (cases "power_int 2 ?d \<le> x")
    case False
    then show ?thesis by (simp add: ilog2_def pq)
  next
    case True
    then have il: "ilog2 x = ?d" by (simp add: ilog2_def pq)
    define a where "a = nat (bitlen p)"
    define b where "b = nat (bitlen q - 1)"
    from pu have "(of_int p :: rat) < of_int (2 ^ a)" unfolding a_def by (simp only: of_int_less_iff)
    then have pa: "(of_int p :: rat) < 2 ^ a" by simp
    from ql have "(of_int (2 ^ b) :: rat) \<le> of_int q" unfolding b_def by (simp only: of_int_le_iff)
    then have qb: "(2::rat) ^ b \<le> of_int q" by simp
    have "of_int p / of_int q < (2::rat) ^ a / 2 ^ b"
    proof (rule frac_less)
      from p show "(0::rat) \<le> of_int p" by simp
      show "(of_int p :: rat) < 2 ^ a" by (rule pa)
      show "(0::rat) < 2 ^ b" by simp
      show "(2::rat) ^ b \<le> of_int q" by (rule qb)
    qed
    also have "(2::rat) ^ a / 2 ^ b = power_int 2 (int a) / power_int 2 (int b)"
      by (simp only: power_int_of_nat)
    also have "\<dots> = power_int 2 (int a - int b)"
      by (rule power_int_diff [symmetric]) simp
    also have "int a - int b = ?d + 1" using bp bq by (simp add: a_def b_def)
    finally show ?thesis using il x by simp
  qed
qed

lemma float64_round_error:
  "\<bar>float64_round x - x\<bar> \<le> max (\<bar>x\<bar> / 2 ^ 53) (1 / 2 ^ 1075)"
proof (cases "x = 0")
  case True
  then show ?thesis by (simp add: float64_round_def)
next
  case False
  define e where "e = max (ilog2 \<bar>x\<bar>) (- 1022)"
  define q :: rat where "q = power_int 2 (e - 52)"
  have q: "0 < q" by (simp add: q_def)
  have fl: "float64_round x = of_int (round_half_even (x / q)) * q"
    using False by (simp add: float64_round_def Let_def e_def q_def)
  have "float64_round x - x = (of_int (round_half_even (x / q)) - x / q) * q"
    using q by (simp add: fl left_diff_distrib)
  then have "\<bar>float64_round x - x\<bar> = \<bar>of_int (round_half_even (x / q)) - x / q\<bar> * \<bar>q\<bar>"
    by (simp only: abs_mult)
  also have "\<dots> = \<bar>of_int (round_half_even (x / q)) - x / q\<bar> * q"
    using q by simp
  also have "\<dots> \<le> 1 / 2 * q"
    using round_half_even_error [of "x / q"] q by (intro mult_right_mono) simp_all
  finally have err: "\<bar>float64_round x - x\<bar> \<le> q / 2" by simp
  show ?thesis
  proof (cases "ilog2 \<bar>x\<bar> \<le> - 1022")
    case True
    then have "e - 52 = - 1074" by (simp add: e_def)
    then have "q = power_int 2 (- 1074)" by (simp only: q_def)
    also have "\<dots> = 1 / 2 ^ 1074" by (simp only: power_int_minus_divide power_int_numeral)
    finally have "q / 2 = 1 / (2 ^ 1074 * 2)" by (simp only: divide_divide_eq_left)
    also have "(2::rat) ^ 1074 * 2 = 2 ^ Suc 1074" by (simp only: power_Suc mult.commute)
    also have "Suc 1074 = 1075" by simp
    finally have "q / 2 = 1 / 2 ^ 1075" .
    with err have "\<bar>float64_round x - x\<bar> \<le> 1 / 2 ^ 1075" by (simp only:)
    then show ?thesis by (rule max.coboundedI2)
  next
    case False
    then have "e = ilog2 \<bar>x\<bar>" by (simp add: e_def)
    then have "q = power_int 2 (ilog2 \<bar>x\<bar>) / 2 ^ 52" by (simp add: q_def power_int_diff)
    also have "\<dots> \<le> \<bar>x\<bar> / 2 ^ 52"
      using ilog2_le [of "\<bar>x\<bar>"] \<open>x \<noteq> 0\<close> by (intro divide_right_mono) simp_all
    finally have "q / 2 \<le> \<bar>x\<bar> / 2 ^ 53" by simp
    with err have "\<bar>float64_round x - x\<bar> \<le> \<bar>x\<bar> / 2 ^ 53" by (rule order_trans)
    then show ?thesis by (rule max.coboundedI1)
  qed
qed

lemma float64_round_nonneg: "0 \<le> x \<Longrightarrow> 0 \<le> float64_round x"
proof (cases "x = 0")
  case False
  assume "0 \<le> x"
  then have "0 \<le> round_half_even (x / power_int 2 (max (ilog2 \<bar>x\<bar>) (- 1022) - 52))"
    by (intro round_half_even_nonneg) simp
  then show ?thesis using False by (simp add: float64_round_def Let_def)
qed (simp add: float64_round_def)

lemma float64_round_rel:
  assumes "1 / 2 ^ 1022 \<le> x"
  shows "\<bar>float64_round x - x\<bar> \<le> x / 2 ^ 53"
proof -
  have "(0::rat) < 1 / 2 ^ 1022" by (simp only: zero_less_divide_1_iff zero_less_power zero_less_numeral)
  from this assms have x: "0 < x" by (rule less_le_trans)
  from assms have "1 / 2 ^ 1022 / 2 ^ 53 \<le> x / (2 ^ 53 :: rat)"
    by (rule divide_right_mono) (simp only: zero_le_power zero_le_numeral)
  also have "1 / 2 ^ 1022 / 2 ^ 53 = 1 / ((2::rat) ^ 1022 * 2 ^ 53)"
    by (simp only: divide_divide_eq_left)
  also have "(2::rat) ^ 1022 * 2 ^ 53 = 2 ^ (1022 + 53)" by (simp only: power_add)
  also have "(1022::nat) + 53 = 1075" by simp
  finally have "1 / 2 ^ 1075 \<le> x / (2 ^ 53 :: rat)" .
  then have "max (x / 2 ^ 53) (1 / 2 ^ 1075) = x / (2 ^ 53 :: rat)" by (rule max.absorb1)
  with float64_round_error [of x] x show ?thesis by (simp only: abs_of_pos)
qed

lemma tiny_le: "1 / 2 ^ 1022 \<le> (1 / 100 :: rat)"
proof -
  have "(2::rat) ^ 7 \<le> 2 ^ 1022" by (rule power_increasing) simp_all
  then have "1 / 2 ^ 1022 \<le> 1 / (2::rat) ^ 7"
    by (rule divide_left_mono) (simp_all only: zero_le_one zero_less_mult_iff zero_less_power zero_less_numeral, simp)
  also have "\<dots> \<le> 1 / 100" by simp
  finally show ?thesis .
qed

lemma float64_round_near:
  assumes "1 / 100 \<le> x"
  shows "x - x / 9007199254740992 \<le> float64_round x"
    and "float64_round x \<le> x + x / 9007199254740992"
proof -
  from tiny_le assms have "1 / 2 ^ 1022 \<le> x" by (rule order_trans)
  from float64_round_rel [OF this] have "\<bar>float64_round x - x\<bar> \<le> x / 9007199254740992"
    by simp
  then show "x - x / 9007199254740992 \<le> float64_round x"
    and "float64_round x \<le> x + x / 9007199254740992"
    by linarith+
qed

lemma float64_round_below:
  assumes "0 \<le> x" and "x \<le> b" and "1 / 100 \<le> b"
  shows "float64_round x \<le> b + b / 9007199254740992"
proof -
  from tiny_le assms(3) have "1 / 2 ^ 1022 \<le> b" by (rule order_trans)
  then have "1 / 2 ^ 1022 / 2 ^ 53 \<le> b / (2 ^ 53 :: rat)"
    by (rule divide_right_mono) (simp only: zero_le_power zero_le_numeral)
  also have "1 / 2 ^ 1022 / 2 ^ 53 = 1 / ((2::rat) ^ 1022 * 2 ^ 53)"
    by (simp only: divide_divide_eq_left)
  also have "(2::rat) ^ 1022 * 2 ^ 53 = 2 ^ (1022 + 53)" by (simp only: power_add)
  also have "(1022::nat) + 53 = 1075" by simp
  finally have small: "1 / 2 ^ 1075 \<le> b / (2 ^ 53 :: rat)" .
  from assms(1,2) have "\<bar>x\<bar> / 2 ^ 53 \<le> b / (2 ^ 53 :: rat)"
    by (simp only: abs_of_nonneg) (rule divide_right_mono, simp_all only: zero_le_power zero_le_numeral)
  from this small have "max (\<bar>x\<bar> / 2 ^ 53) (1 / 2 ^ 1075) \<le> b / (2 ^ 53 :: rat)"
    by (rule max.boundedI)
  with float64_round_error [of x] have "\<bar>float64_round x - x\<bar> \<le> b / 2 ^ 53"
    by (rule order_trans)
  moreover have "(2::rat) ^ 53 = 9007199254740992" by simp
  ultimately have "\<bar>float64_round x - x\<bar> \<le> b / 9007199254740992" by (simp only:)
  with assms(2) show ?thesis by linarith
qed

lemma jitter_constant:
  "float64_round defaultRefreshJitter = 3602879701896397 / 36028797018963968"
  by code_simp

lemma multiplier_constant:
  "float64_round defaultRefreshMultiplier = 3602879701896397 / 4503599627370496"
  by code_simp

text \<open>
  The float64 value of \<^verbatim>\<open>getNextRefreshFromExpiration\<close> before the conversion to
  \<^verbatim>\<open>time.Duration\<close>, against the expiration \<open>l\<close>.
\<close>

lemma refresh_value_bounds:
  fixes l r :: rat
  assumes l: "1 \<le> l" and r: "0 \<le> r" "r < 1"
  defines "x \<equiv> float64_round l"
  defines "diff \<equiv> float64_round (float64_round defaultRefreshJitter * x)"
  defines "center \<equiv> float64_round (float64_round defaultRefreshMultiplier * x)"
  defines "minRange \<equiv> float64_round (center - diff)"
  defines "s \<equiv> float64_round (minRange + float64_round (float64_round (r * 2) * diff))"
  shows "7 / 10 * l * (1 - 3 / 10 ^ 15) \<le> s" and "s \<le> 9 / 10 * l * (1 + 3 / 10 ^ 15)"
proof -
  from l have "1 / 100 \<le> l" by simp
  note xb = float64_round_near [OF this, folded x_def]
  from xb l have x1: "1 / 2 \<le> x" by linarith
  define y1 where "y1 = 3602879701896397 / 36028797018963968 * x"
  define y8 where "y8 = 3602879701896397 / 4503599627370496 * x"
  have d_eq: "diff = float64_round y1" by (simp only: diff_def jitter_constant y1_def)
  have c_eq: "center = float64_round y8" by (simp only: center_def multiplier_constant y8_def)
  from x1 have "1 / 100 \<le> y1" unfolding y1_def by linarith
  note db = float64_round_near [OF this, folded d_eq]
  from x1 have "1 / 100 \<le> y8" unfolding y8_def by linarith
  note cb = float64_round_near [OF this, folded c_eq]
  have d_lo: "1 / 10 * l * (1 - 1 / 10 ^ 15) \<le> diff"
    using xb db l unfolding y1_def by ((simp add: algebra_simps diff_divide_distrib add_divide_distrib)?, linarith?)
  have d_hi: "diff \<le> 1 / 10 * l * (1 + 1 / 10 ^ 15)"
    using xb db l unfolding y1_def by ((simp add: algebra_simps diff_divide_distrib add_divide_distrib)?, linarith?)
  have c_lo: "8 / 10 * l * (1 - 1 / 10 ^ 15) \<le> center"
    using xb cb l unfolding y8_def by ((simp add: algebra_simps diff_divide_distrib add_divide_distrib)?, linarith?)
  have c_hi: "center \<le> 8 / 10 * l * (1 + 1 / 10 ^ 15)"
    using xb cb l unfolding y8_def by ((simp add: algebra_simps diff_divide_distrib add_divide_distrib)?, linarith?)
  from d_hi c_lo l have "1 / 100 \<le> center - diff" by ((simp add: algebra_simps diff_divide_distrib add_divide_distrib)?, linarith?)
  note mb = float64_round_near [OF this, folded minRange_def]
  have m_lo: "7 / 10 * l * (1 - 2 / 10 ^ 15) \<le> minRange"
    using mb d_hi c_lo l by ((simp add: algebra_simps diff_divide_distrib add_divide_distrib)?, linarith?)
  have m_hi: "minRange \<le> 7 / 10 * l * (1 + 2 / 10 ^ 15)"
    using mb d_lo c_hi l by ((simp add: algebra_simps diff_divide_distrib add_divide_distrib)?, linarith?)
  define t where "t = float64_round (r * 2)"
  from r have t0: "0 \<le> t" unfolding t_def by (intro float64_round_nonneg) simp
  from r have "t \<le> 2 + 2 / 9007199254740992"
    unfolding t_def by (intro float64_round_below) simp_all
  then have t2: "t \<le> 2 + 1 / 10 ^ 15" by simp
  from d_lo l have d0: "0 \<le> diff" by ((simp add: algebra_simps diff_divide_distrib add_divide_distrib)?, linarith?)
  define p where "p = float64_round (t * diff)"
  from t0 d0 have p0: "0 \<le> p" unfolding p_def by (intro float64_round_nonneg) simp
  define b where "b = (2 + 1 / 10 ^ 15) * diff"
  from t2 d0 have wb: "t * diff \<le> b" unfolding b_def by (rule mult_right_mono)
  from d_lo l have b1: "1 / 100 \<le> b" unfolding b_def by ((simp add: algebra_simps diff_divide_distrib add_divide_distrib)?, linarith?)
  from t0 d0 have "0 \<le> t * diff" by simp
  from float64_round_below [OF this wb b1] have pb: "p \<le> b + b / 9007199254740992"
    by (simp only: p_def)
  have p_hi: "p \<le> 2 / 10 * l * (1 + 2 / 10 ^ 15)"
    using pb d_hi l unfolding b_def by ((simp add: algebra_simps diff_divide_distrib add_divide_distrib)?, linarith?)
  have s_eq: "s = float64_round (minRange + p)" by (simp only: s_def p_def t_def)
  from m_lo p0 l have "1 / 100 \<le> minRange + p" by ((simp add: algebra_simps diff_divide_distrib add_divide_distrib)?, linarith?)
  note sb = float64_round_near [OF this, folded s_eq]
  show "7 / 10 * l * (1 - 3 / 10 ^ 15) \<le> s"
    using sb m_lo p0 l by ((simp add: algebra_simps diff_divide_distrib add_divide_distrib)?, linarith?)
  show "s \<le> 9 / 10 * l * (1 + 3 / 10 ^ 15)"
    using sb m_hi p_hi l by ((simp add: algebra_simps diff_divide_distrib add_divide_distrib)?, linarith?)
qed

text \<open>
  Claim C2, refuted as stated: for an expiration of 1 ns and the random value 0 the
  float64 value is about 0.7 and \<^verbatim>\<open>time.Duration(...)\<close> truncates it to 0, which is
  below \<open>0.7 \<cdot> L\<close>. For a large expiration the float64 roundings also take the result
  a few nanoseconds above \<open>0.9 \<cdot> L\<close> (here with the greatest float64 below 1 as the
  random value).
\<close>

theorem refresh_delay_outside_interval:
  "getNextRefreshFromExpiration 1 0 = 0 \<and>
   \<not> (7 / 10 * (of_int 1 :: rat) \<le> of_int (getNextRefreshFromExpiration 1 0)) \<and>
   getNextRefreshFromExpiration 3188523523289869370 (1 - 1 / 2 ^ 53) = 2869671170960882688 \<and>
   \<not> ((of_int (getNextRefreshFromExpiration 3188523523289869370 (1 - 1 / 2 ^ 53)) :: rat)
        \<le> 9 / 10 * of_int 3188523523289869370)"
  by code_simp

text \<open>
  Claim C2, amended. For every expiration \<open>L\<close> with \<open>0 < L < 2 ^ 63\<close> nanoseconds and
  every random value \<open>r\<close> with \<open>0 \<le> r < 1\<close>, the returned duration \<open>d\<close> is a whole
  number of nanoseconds with \<open>0 \<le> d < L\<close>, and it lies in the interval
  \<open>[0.7 \<cdot> L, 0.9 \<cdot> L]\<close> up to the truncation and the float64 roundings:
  \<open>0.7 \<cdot> L \<cdot> (1 - 10\<^sup>-\<^sup>1\<^sup>4) - 1 < d \<le> 0.9 \<cdot> L \<cdot> (1 + 10\<^sup>-\<^sup>1\<^sup>4)\<close>.
\<close>

theorem refresh_delay_bounds:
  assumes "0 < L" and "L < 2 ^ 63" and "0 \<le> r" and "r < 1"
  shows "0 \<le> getNextRefreshFromExpiration L r \<and>
     getNextRefreshFromExpiration L r < L \<and>
     7 / 10 * of_int L * (1 - 1 / 10 ^ 14) - 1 < (of_int (getNextRefreshFromExpiration L r) :: rat) \<and>
     (of_int (getNextRefreshFromExpiration L r) :: rat) \<le> 9 / 10 * of_int L * (1 + 1 / 10 ^ 14)"
proof -
  define l :: rat where "l = of_int L"
  define s where "s = float64_round
     (float64_round
        (float64_round (float64_round defaultRefreshMultiplier * float64_round l) -
         float64_round (float64_round defaultRefreshJitter * float64_round l)) +
      float64_round (float64_round (r * 2) *
         float64_round (float64_round defaultRefreshJitter * float64_round l)))"
  from assms(1) have l: "1 \<le> l" by (simp add: l_def)
  have g: "getNextRefreshFromExpiration L r = float64_to_int64 s"
    by (simp add: getNextRefreshFromExpiration_def Let_def s_def l_def)
  from refresh_value_bounds [OF l assms(3,4)]
  have lo: "7 / 10 * l * (1 - 3 / 10 ^ 15) \<le> s" and hi: "s \<le> 9 / 10 * l * (1 + 3 / 10 ^ 15)"
    by (simp_all only: s_def)
  from lo l have s0: "0 \<le> s"
    by ((simp add: algebra_simps diff_divide_distrib add_divide_distrib)?, linarith?)
  then have t: "float64_to_int64 s = \<lfloor>s\<rfloor>" by (simp add: float64_to_int64_def)
  have f: "of_int \<lfloor>s\<rfloor> \<le> s" "s < of_int \<lfloor>s\<rfloor> + 1" by linarith+
  from s0 have 1: "0 \<le> \<lfloor>s\<rfloor>" by simp
  from f(1) hi l have "(of_int \<lfloor>s\<rfloor> :: rat) < of_int L"
    unfolding l_def [symmetric]
    by ((simp add: algebra_simps diff_divide_distrib add_divide_distrib)?, linarith?)
  then have 2: "\<lfloor>s\<rfloor> < L" by (simp only: of_int_less_iff)
  from f(2) lo l have 3: "7 / 10 * l * (1 - 1 / 10 ^ 14) - 1 < of_int \<lfloor>s\<rfloor>"
    by ((simp add: algebra_simps diff_divide_distrib add_divide_distrib)?, linarith?)
  from f(1) hi l have 4: "of_int \<lfloor>s\<rfloor> \<le> 9 / 10 * l * (1 + 1 / 10 ^ 14)"
    by ((simp add: algebra_simps diff_divide_distrib add_divide_distrib)?, linarith?)
  from 1 2 3 4 show ?thesis by (simp only: g t l_def)
qed

theorem refresh_delay_bounds_witness:
  "(0::int) < 1000 \<and> (1000::int) < 2 ^ 63 \<and> (0::rat) \<le> 1 / 2 \<and> (1 / 2 :: rat) < 1 \<and>
   getNextRefreshFromExpiration 1000 (1 / 2) = 800 \<and>
   0 \<le> getNextRefreshFromExpiration 1000 (1 / 2) \<and>
   getNextRefreshFromExpiration 1000 (1 / 2) < 1000"
proof -
  have 1: "(0::int) < 1000" and 2: "(1000::int) < 2 ^ 63"
    and 3: "(0::rat) \<le> 1 / 2" and 4: "(1 / 2 :: rat) < 1" by simp_all
  have 5: "getNextRefreshFromExpiration 1000 (1 / 2) = 800" by code_simp
  from refresh_delay_bounds [OF 1 2 3 4] 1 2 3 4 5 show ?thesis by simp
qed

end
